theory Spec2Isabelle
  imports Main "HOL-Library.AList"
begin

section \<open>JavaScript values\<close>

text \<open>
  The values that flow through \<^verbatim>\<open>src/mcp/server.ts\<close> and \<^verbatim>\<open>src/mcp/tavily.ts\<close>
  are what \<^verbatim>\<open>JSON.parse\<close> and the body parser deliver, plus \<^verbatim>\<open>undefined\<close>
  (the value of a missing property). Numbers are IEEE doubles in the program; the
  model leaves the number type \<open>'n\<close> open and takes its operations as a record, so
  every theorem holds for whatever the arithmetic of the engine is. Strings are
  byte strings; the non-ASCII text of the source is written as its UTF-8 bytes.
\<close>

datatype 'n jsval =
    JUndefined
  | JNull
  | JBool bool
  | JNum 'n
  | JStr string
  | JArr "'n jsval list"
  | JObj "(string \<times> 'n jsval) list"

record 'n numops =
  nadd :: "'n \<Rightarrow> 'n \<Rightarrow> 'n"        \<comment> \<open>\<^verbatim>\<open>a + b\<close> on two numbers\<close>
  nof_int :: "int \<Rightarrow> 'n"            \<comment> \<open>an integer literal such as \<^verbatim>\<open>0\<close>, \<^verbatim>\<open>1\<close>, \<^verbatim>\<open>10\<close>\<close>
  nnan :: "'n"                       \<comment> \<open>\<^verbatim>\<open>NaN\<close>\<close>
  nfalsy :: "'n \<Rightarrow> bool"             \<comment> \<open>the number is \<^verbatim>\<open>0\<close>, \<^verbatim>\<open>-0\<close> or \<^verbatim>\<open>NaN\<close>\<close>
  nshow :: "'n \<Rightarrow> string"            \<comment> \<open>\<^verbatim>\<open>String(n)\<close>\<close>
  nparse :: "string \<Rightarrow> 'n"           \<comment> \<open>\<^verbatim>\<open>Number(s)\<close> on a string\<close>

text \<open>Errors thrown in the program: \<^verbatim>\<open>new Error(msg)\<close> and the engine's TypeError.\<close>

datatype exn = JsError string | JsTypeError string

fun exn_message :: "exn \<Rightarrow> string" where
  "exn_message (JsError m) = m"
| "exn_message (JsTypeError m) = m"

text \<open>The truth value of a value in \<^verbatim>\<open>!v\<close>, \<^verbatim>\<open>a || b\<close> and \<^verbatim>\<open>c ? a : b\<close>.\<close>

fun truthy :: "'n numops \<Rightarrow> 'n jsval \<Rightarrow> bool" where
  "truthy ops JUndefined = False"
| "truthy ops JNull = False"
| "truthy ops (JBool b) = b"
| "truthy ops (JNum n) = (\<not> nfalsy ops n)"
| "truthy ops (JStr s) = (s \<noteq> [])"
| "truthy ops (JArr xs) = True"
| "truthy ops (JObj kvs) = True"

text \<open>\<^verbatim>\<open>a || b\<close> and \<^verbatim>\<open>a ?? b\<close>.\<close>

definition js_or :: "'n numops \<Rightarrow> 'n jsval \<Rightarrow> 'n jsval \<Rightarrow> 'n jsval" where
  "js_or ops a b = (if truthy ops a then a else b)"

fun nullish :: "'n jsval \<Rightarrow> 'n jsval \<Rightarrow> 'n jsval" where
  "nullish JUndefined b = b"
| "nullish JNull b = b"
| "nullish a b = a"

text \<open>
  Reading a property \<^verbatim>\<open>v.k\<close> of a value other than \<^verbatim>\<open>null\<close> and \<^verbatim>\<open>undefined\<close>.
  The program reads only \<^verbatim>\<open>jsonrpc\<close>, \<^verbatim>\<open>id\<close>, \<^verbatim>\<open>method\<close>, \<^verbatim>\<open>params\<close>, \<^verbatim>\<open>name\<close>
  and \<^verbatim>\<open>input\<close> this way; no prototype defines any of them, so an object gives
  its own property and every other value gives \<^verbatim>\<open>undefined\<close>.
\<close>

fun get_prop :: "'n jsval \<Rightarrow> string \<Rightarrow> 'n jsval" where
  "get_prop (JObj kvs) k = (case map_of kvs k of Some v \<Rightarrow> v | None \<Rightarrow> JUndefined)"
| "get_prop v k = JUndefined"

text \<open>\<^verbatim>\<open>Object.keys(v)\<close>: the names of the own properties of an object.\<close>

fun own_keys :: "'n jsval \<Rightarrow> string list" where
  "own_keys (JObj kvs) = map fst kvs"
| "own_keys v = []"

text \<open>
  Conversion of a value to a primitive (ECMAScript \<^verbatim>\<open>ToPrimitive\<close>, which
  \<^verbatim>\<open>String(v)\<close>, \<^verbatim>\<open>Number(v)\<close>, a template literal and a computed
  property key all go through). For an object it calls the methods
  \<^verbatim>\<open>toString\<close> and \<^verbatim>\<open>valueOf\<close> in turn (the other way round for
  \<^verbatim>\<open>Number\<close>), skips one that is not callable, and throws a TypeError when
  neither gives a primitive. An object made by \<^verbatim>\<open>JSON.parse\<close> inherits
  both from \<^verbatim>\<open>Object.prototype\<close>: \<^verbatim>\<open>valueOf\<close> returns the object itself,
  which is no primitive, and \<^verbatim>\<open>toString\<close> returns \<^verbatim>\<open>[object Object]\<close>.
  An own property \<^verbatim>\<open>toString\<close>, as in \<^verbatim>\<open>{"toString": 1}\<close>, shadows the
  inherited method with a value that cannot be called, and the conversion throws.
  An array converts by joining the conversions of its elements with commas,
  \<^verbatim>\<open>null\<close> and \<^verbatim>\<open>undefined\<close> counting as the empty string.
\<close>

fun convertible :: "'n jsval \<Rightarrow> bool" where
  "convertible (JArr xs) = list_all convertible xs"
| "convertible (JObj kvs) = (''toString'' \<notin> set (map fst kvs))"
| "convertible v = True"

fun join_comma :: "string list \<Rightarrow> string" where
  "join_comma [] = []"
| "join_comma [s] = s"
| "join_comma (s # t # ss) = s @ '','' @ join_comma (t # ss)"

fun to_string :: "'n numops \<Rightarrow> 'n jsval \<Rightarrow> string" where
  "to_string ops JUndefined = ''undefined''"
| "to_string ops JNull = ''null''"
| "to_string ops (JBool b) = (if b then ''true'' else ''false'')"
| "to_string ops (JNum n) = nshow ops n"
| "to_string ops (JStr s) = s"
| "to_string ops (JArr xs) =
     join_comma (map (\<lambda>x. if x = JNull \<or> x = JUndefined then [] else to_string ops x) xs)"
| "to_string ops (JObj kvs) = ''[object Object]''"

definition cannot_convert :: exn where
  "cannot_convert = JsTypeError ''Cannot convert object to primitive value''"

text \<open>\<^verbatim>\<open>String(v)\<close>, a template literal \<^verbatim>\<open>`${v}`\<close> and a property key \<^verbatim>\<open>o[v]\<close>.\<close>

definition js_String :: "'n numops \<Rightarrow> 'n jsval \<Rightarrow> exn + string" where
  "js_String ops v = (if convertible v then Inr (to_string ops v) else Inl cannot_convert)"

text \<open>\<^verbatim>\<open>Number(v)\<close>.\<close>

fun to_number :: "'n numops \<Rightarrow> 'n jsval \<Rightarrow> 'n" where
  "to_number ops JUndefined = nnan ops"
| "to_number ops JNull = nof_int ops 0"
| "to_number ops (JBool b) = nof_int ops (if b then 1 else 0)"
| "to_number ops (JNum n) = n"
| "to_number ops (JStr s) = nparse ops s"
| "to_number ops (JArr xs) = nparse ops (to_string ops (JArr xs))"
| "to_number ops (JObj kvs) = nparse ops (to_string ops (JObj kvs))"

definition js_Number :: "'n numops \<Rightarrow> 'n jsval \<Rightarrow> exn + 'n" where
  "js_Number ops v = (if convertible v then Inr (to_number ops v) else Inl cannot_convert)"

section \<open>JSON-RPC responses\<close>

text \<open>
  \<^verbatim>\<open>JsonRpcSuccess\<close> and \<^verbatim>\<open>JsonRpcError\<close>; the constant field
  \<^verbatim>\<open>jsonrpc: '2.0'\<close> is left out. The optional \<^verbatim>\<open>data\<close> of an error is the
  \<^verbatim>\<open>stack\<close> of the caught error (a text the engine derives from it) or the
  message of a parse error.
\<close>

datatype diag = Stack exn | Diagnostic string

datatype 'n response =
    Success (rid: "'n jsval") (result: "'n jsval")
  | Failure (rid: "'n jsval") (code: int) (message: string) (data: "diag option")

text \<open>The \<^verbatim>\<open>catch\<close> clause of both dispatchers.\<close>

definition caught :: "'n jsval \<Rightarrow> exn \<Rightarrow> 'n response" where
  "caught i err =
     Failure i (- 32000)
       (if exn_message err = [] then ''Internal error'' else exn_message err)
       (Some (Stack err))"

section \<open>Tool registries\<close>

record 'n tool =
  name :: string
  description :: string
  inputSchema :: "'n jsval"          \<comment> \<open>\<^verbatim>\<open>undefined\<close> where the tool declares none\<close>
  run :: "'n jsval \<Rightarrow> exn + 'n jsval"

text \<open>
  A registry is an object literal: its own properties in the order they are
  written (no key is an integer index), on top of \<^verbatim>\<open>Object.prototype\<close>, whose
  properties \<^verbatim>\<open>tools[name]\<close> and \<^verbatim>\<open>name in TOOLS\<close> find as well.
\<close>

definition object_prototype_keys :: "string list" where
  "object_prototype_keys =
     [''constructor'', ''__proto__'', ''hasOwnProperty'', ''isPrototypeOf'',
      ''propertyIsEnumerable'', ''toString'', ''toLocaleString'', ''valueOf'',
      ''__defineGetter__'', ''__defineSetter__'', ''__lookupGetter__'', ''__lookupSetter__'']"

datatype 'n lookup = Own "'n tool" | Inherited | Missing

definition tools_get :: "(string \<times> 'n tool) list \<Rightarrow> string \<Rightarrow> 'n lookup" where
  "tools_get reg k =
     (case map_of reg k of
        Some t \<Rightarrow> Own t
      | None \<Rightarrow> if k \<in> set object_prototype_keys then Inherited else Missing)"

text \<open>\<^verbatim>\<open>Object.values\<close> and \<^verbatim>\<open>Object.keys\<close> of a registry.\<close>

definition Object_values :: "(string \<times> 'n tool) list \<Rightarrow> 'n tool list" where
  "Object_values reg = map snd reg"

definition Object_keys :: "(string \<times> 'n tool) list \<Rightarrow> string list" where
  "Object_keys reg = map fst reg"

subsection \<open>The tools of \<^verbatim>\<open>server.ts\<close>\<close>

text \<open>\<^verbatim>\<open>Array.prototype.reduce\<close> with a callback that may throw.\<close>

fun reduce :: "('a \<Rightarrow> 'b \<Rightarrow> exn + 'a) \<Rightarrow> 'a \<Rightarrow> 'b list \<Rightarrow> exn + 'a" where
  "reduce f acc [] = Inr acc"
| "reduce f acc (v # vs) = (case f acc v of Inl e \<Rightarrow> Inl e | Inr acc' \<Rightarrow> reduce f acc' vs)"

definition echo_run :: "'n jsval \<Rightarrow> exn + 'n jsval" where
  "echo_run input = Inr (JObj [(''echo'', input)])"

text \<open>\<open>now\<close> is \<^verbatim>\<open>new Date().toISOString()\<close> at the time of the call.\<close>

definition now_run :: "string \<Rightarrow> 'n jsval \<Rightarrow> exn + 'n jsval" where
  "now_run now input = Inr (JObj [(''now'', JStr now)])"

definition sum_step :: "'n numops \<Rightarrow> 'n \<Rightarrow> 'n jsval \<Rightarrow> exn + 'n" where
  "sum_step ops acc v =
     (case js_Number ops (js_or ops v (JNum (nof_int ops 0))) of
        Inl e \<Rightarrow> Inl e
      | Inr n \<Rightarrow> Inr (nadd ops acc n))"

fun sum_run :: "'n numops \<Rightarrow> 'n jsval \<Rightarrow> exn + 'n jsval" where
  "sum_run ops (JArr xs) =
     (case reduce (sum_step ops) (nof_int ops 0) xs of
        Inl e \<Rightarrow> Inl e
      | Inr tot \<Rightarrow> Inr (JObj [(''total'', JNum tot)]))"
| "sum_run ops v = Inl (JsError ''Input must be array of numbers'')"

definition utf8 :: "nat list \<Rightarrow> string" where
  "utf8 bs = map char_of bs"

definition tools :: "'n numops \<Rightarrow> string \<Rightarrow> (string \<times> 'n tool) list" where
  "tools ops now =
     [(''echo'',
       \<lparr>name = ''echo'',
        description = ''Return the provided input. / '' @
          utf8 [0xE5, 0x9B, 0x9E, 0xE6, 0x98, 0xBE, 0xE8, 0xBE, 0x93, 0xE5, 0x85, 0xA5,
                0xE5, 0x86, 0x85, 0xE5, 0xAE, 0xB9],
        inputSchema = JUndefined,
        run = echo_run\<rparr>),
      (''now'',
       \<lparr>name = ''now'',
        description = ''Return current ISO timestamp. / '' @
          utf8 [0xE8, 0xBF, 0x94, 0xE5, 0x9B, 0x9E, 0xE5, 0xBD, 0x93, 0xE5, 0x89, 0x8D,
                0xE6, 0x97, 0xB6, 0xE9, 0x97, 0xB4, 0xE6, 0x88, 0xB3],
        inputSchema = JUndefined,
        run = now_run now\<rparr>),
      (''sum'',
       \<lparr>name = ''sum'',
        description = ''Sum numbers in an array. / '' @
          utf8 [0xE5, 0xAF, 0xB9, 0xE6, 0x95, 0xB0, 0xE7, 0xBB, 0x84, 0xE4, 0xB8, 0xAD,
                0xE7, 0x9A, 0x84, 0xE6, 0x95, 0xB0, 0xE5, 0xAD, 0x97, 0xE6, 0xB1, 0x82,
                0xE5, 0x92, 0x8C],
        inputSchema = JUndefined,
        run = sum_run ops\<rparr>)]"

section \<open>The dispatcher of \<^verbatim>\<open>server.ts\<close>\<close>

text \<open>
  The result of an \<^verbatim>\<open>async\<close> function is \<open>Inr\<close> the value its promise resolves
  to or \<open>Inl\<close> the error it rejects with. Reading \<^verbatim>\<open>reqObj.jsonrpc\<close> of
  \<^verbatim>\<open>null\<close> or \<^verbatim>\<open>undefined\<close> throws before the \<^verbatim>\<open>try\<close> block is entered.
\<close>

definition null_read :: "'n jsval \<Rightarrow> exn" where
  "null_read v =
     JsTypeError (''Cannot read properties of '' @ (if v = JNull then ''null'' else ''undefined'') @
                  '' (reading 'jsonrpc')'')"

definition not_a_function :: "string \<Rightarrow> exn" where
  "not_a_function callee = JsTypeError (callee @ '' is not a function'')"

text \<open>The \<^verbatim>\<open>callTool\<close> case: \<^verbatim>\<open>if (!name || !tools[name]) throw ...\<close>.\<close>

definition callTool_server :: "'n numops \<Rightarrow> string \<Rightarrow> 'n jsval \<Rightarrow> exn + 'n jsval" where
  "callTool_server ops now params =
     (let p = js_or ops params (JObj []);
          nm = get_prop p ''name'';
          input = get_prop p ''input''
      in if \<not> truthy ops nm then
           (case js_String ops nm of
              Inl e \<Rightarrow> Inl e
            | Inr s \<Rightarrow> Inl (JsError (''Tool not found: '' @ s)))
         else
           (case js_String ops nm of
              Inl e \<Rightarrow> Inl e
            | Inr k \<Rightarrow>
               (case tools_get (tools ops now) k of
                  Missing \<Rightarrow> Inl (JsError (''Tool not found: '' @ k))
                | Inherited \<Rightarrow> Inl (not_a_function ''tools[name].run'')
                | Own t \<Rightarrow> run t input)))"

text \<open>The body of the \<^verbatim>\<open>try\<close> block.\<close>

definition dispatch_server :: "'n numops \<Rightarrow> string \<Rightarrow> 'n jsval \<Rightarrow> exn + 'n response" where
  "dispatch_server ops now reqObj =
     (let i = nullish (get_prop reqObj ''id'') JNull;
          m = get_prop reqObj ''method''
      in if m = JStr ''ping'' then
           Inr (Success i (JObj [(''pong'', JBool True)]))
         else if m = JStr ''listTools'' then
           Inr (Success i
                 (JArr (map (\<lambda>t. JObj [(''name'', JStr (name t)),
                                        (''description'', JStr (description t))])
                            (Object_values (tools ops now)))))
         else if m = JStr ''callTool'' then
           (case callTool_server ops now (get_prop reqObj ''params'') of
              Inl e \<Rightarrow> Inl e
            | Inr r \<Rightarrow> Inr (Success i r))
         else
           (case js_String ops m of
              Inl e \<Rightarrow> Inl e
            | Inr s \<Rightarrow> Inr (Failure i (- 32601) (''Method not found: '' @ s) None)))"

definition handleRpc_server :: "'n numops \<Rightarrow> string \<Rightarrow> 'n jsval \<Rightarrow> exn + 'n response" where
  "handleRpc_server ops now reqObj =
     (if reqObj = JNull \<or> reqObj = JUndefined then Inl (null_read reqObj)
      else if get_prop reqObj ''jsonrpc'' \<noteq> JStr ''2.0'' then
        Inr (Failure (nullish (get_prop reqObj ''id'') JNull) (- 32600)
               ''Invalid JSON-RPC version'' None)
      else
        (case dispatch_server ops now reqObj of
           Inr resp \<Rightarrow> Inr resp
         | Inl err \<Rightarrow> Inr (caught (nullish (get_prop reqObj ''id'') JNull) err)))"

section \<open>The dispatcher of \<^verbatim>\<open>tavily.ts\<close>\<close>

text \<open>
  \<^verbatim>\<open>config.tavily.apiKey\<close> comes from a module that is not part of the sources
  at hand, and what follows the key check in \<^verbatim>\<open>run\<close> (building the request,
  \<^verbatim>\<open>fetch\<close>, the status check and the shaping of the results) depends on the
  network: both are parameters. \<open>search\<close> gives, for an input, the value that part
  returns or the error it throws.
\<close>

record 'n tavily_env =
  apiKey :: "'n jsval"
  search :: "'n jsval \<Rightarrow> exn + 'n jsval"

definition tavily_schema :: "'n numops \<Rightarrow> 'n jsval" where
  "tavily_schema ops =
     JObj [(''type'', JStr ''object''),
           (''properties'',
            JObj [(''query'',
                   JObj [(''type'', JStr ''string''),
                         (''description'', JStr (''Search query / '' @
                            utf8 [0xE6, 0x90, 0x9C, 0xE7, 0xB4, 0xA2, 0xE5, 0x85, 0xB3,
                                  0xE9, 0x94, 0xAE, 0xE8, 0xAF, 0x8D]))]),
                  (''max_results'',
                   JObj [(''type'', JStr ''number''),
                         (''description'', JStr ''Max results (1-10)''),
                         (''minimum'', JNum (nof_int ops 1)),
                         (''maximum'', JNum (nof_int ops 10))]),
                  (''depth'',
                   JObj [(''type'', JStr ''string''),
                         (''enum'', JArr [JStr ''basic'', JStr ''advanced'']),
                         (''description'', JStr ''Search depth'')])]),
           (''required'', JArr [JStr ''query''])]"

definition tavily_run :: "'n numops \<Rightarrow> 'n tavily_env \<Rightarrow> 'n jsval \<Rightarrow> exn + 'n jsval" where
  "tavily_run ops env input =
     (if \<not> truthy ops (apiKey env) then
        Inl (JsError (''Tavily API key missing. '' @
               utf8 [0xE8, 0xAF, 0xB7, 0xE5, 0x9C, 0xA8, 0xE7, 0x8E, 0xAF, 0xE5, 0xA2, 0x83,
                     0xE5, 0x8F, 0x98, 0xE9, 0x87, 0x8F, 0xE4, 0xB8, 0xAD, 0xE8, 0xAE, 0xBE,
                     0xE7, 0xBD, 0xAE] @ '' TAVILY_API_KEY''))
      else search env input)"

definition TOOLS :: "'n numops \<Rightarrow> 'n tavily_env \<Rightarrow> (string \<times> 'n tool) list" where
  "TOOLS ops env =
     [(''tavily_search'',
       \<lparr>name = ''tavily_search'',
        description = ''Perform a web search using Tavily API. '' @
          utf8 [0xE8, 0xBE, 0x93, 0xE5, 0x85, 0xA5, 0xE8, 0x87, 0xAA, 0xE7, 0x84, 0xB6,
                0xE8, 0xAF, 0xAD, 0xE8, 0xA8, 0x80, 0xE6, 0x9F, 0xA5, 0xE8, 0xAF, 0xA2,
                0xEF, 0xBC, 0x8C, 0xE8, 0xBF, 0x94, 0xE5, 0x9B, 0x9E, 0xE6, 0x9C, 0x80,
                0xE6, 0x96, 0xB0, 0xE4, 0xBA, 0x92, 0xE8, 0x81, 0x94, 0xE7, 0xBD, 0x91,
                0xE4, 0xBF, 0xA1, 0xE6, 0x81, 0xAF, 0xE6, 0x91, 0x98, 0xE8, 0xA6, 0x81,
                0xE3, 0x80, 0x82],
        inputSchema = tavily_schema ops,
        run = tavily_run ops env\<rparr>)]"

text \<open>
  The \<^verbatim>\<open>callTool\<close> case:
  \<^verbatim>\<open>if (typeof name !== 'string' || !(name in TOOLS)) throw ...\<close>, then
  \<^verbatim>\<open>tool.run(input || {})\<close>.
\<close>

definition callTool_stdio :: "'n numops \<Rightarrow> 'n tavily_env \<Rightarrow> 'n jsval \<Rightarrow> exn + 'n jsval" where
  "callTool_stdio ops env params =
     (let p = js_or ops params (JObj []);
          nm = get_prop p ''name'';
          input = get_prop p ''input''
      in case nm of
           JStr k \<Rightarrow>
             (case tools_get (TOOLS ops env) k of
                Missing \<Rightarrow> Inl (JsError (''Tool not found: '' @ k))
              | Inherited \<Rightarrow> Inl (not_a_function ''tool.run'')
              | Own t \<Rightarrow> run t (js_or ops input (JObj [])))
         | _ \<Rightarrow>
             (case js_String ops nm of
                Inl e \<Rightarrow> Inl e
              | Inr s \<Rightarrow> Inl (JsError (''Tool not found: '' @ s))))"

definition dispatch_stdio :: "'n numops \<Rightarrow> 'n tavily_env \<Rightarrow> 'n jsval \<Rightarrow> exn + 'n response" where
  "dispatch_stdio ops env req =
     (let i = nullish (get_prop req ''id'') JNull;
          m = get_prop req ''method''
      in if m = JStr ''ping'' then
           Inr (Success i (JObj [(''pong'', JBool True)]))
         else if m = JStr ''listTools'' then
           Inr (Success i
                 (JArr (map (\<lambda>t. JObj [(''name'', JStr (name t)),
                                        (''description'', JStr (description t)),
                                        (''inputSchema'', inputSchema t)])
                            (Object_values (TOOLS ops env)))))
         else if m = JStr ''callTool'' then
           (case callTool_stdio ops env (get_prop req ''params'') of
              Inl e \<Rightarrow> Inl e
            | Inr r \<Rightarrow> Inr (Success i r))
         else
           (case js_String ops m of
              Inl e \<Rightarrow> Inl e
            | Inr s \<Rightarrow> Inr (Failure i (- 32601) (''Method not found: '' @ s) None)))"

definition handleRpc_stdio :: "'n numops \<Rightarrow> 'n tavily_env \<Rightarrow> 'n jsval \<Rightarrow> exn + 'n response" where
  "handleRpc_stdio ops env req =
     (if req = JNull \<or> req = JUndefined then Inl (null_read req)
      else if get_prop req ''jsonrpc'' \<noteq> JStr ''2.0'' then
        Inr (Failure (nullish (get_prop req ''id'') JNull) (- 32600)
               ''Invalid JSON-RPC version'' None)
      else
        (case dispatch_stdio ops env req of
           Inr resp \<Rightarrow> Inr resp
         | Inl err \<Rightarrow> Inr (caught (nullish (get_prop req ''id'') JNull) err)))"

section \<open>The SSE server of \<^verbatim>\<open>server.ts\<close>\<close>

text \<open>
  \<^verbatim>\<open>ClientConn\<close>. The field \<^verbatim>\<open>res\<close> is the stream of the connection; what
  is written to it is kept in the \<open>wire\<close> of the server state, each frame beside
  the id of the connection it was written to. A frame stands for the three writes
  \<^verbatim>\<open>id: ...\<close>, \<^verbatim>\<open>event: ...\<close>, \<^verbatim>\<open>data: ...\<close>; its payload is the value
  handed to \<^verbatim>\<open>JSON.stringify\<close>.
\<close>

record 'n ClientConn =
  conn_id :: string
  createdAt :: 'n
  lastEventId :: 'n

datatype 'n payload =
    Rpc "'n response"
  | Tick 'n                     \<comment> \<open>\<^verbatim>\<open>{ ts }\<close>\<close>
  | Welcome string string       \<comment> \<open>\<^verbatim>\<open>{ clientId, serverTime }\<close>\<close>

record 'n frame =
  frame_id :: nat
  frame_event :: string
  frame_data :: "'n payload"

text \<open>
  \<^verbatim>\<open>clients\<close> is a \<^verbatim>\<open>Map\<close>, which keeps insertion order: an association
  list. \<^verbatim>\<open>globalEventSeq\<close> starts at 1 and only ever grows by 1; it is a natural
  number here (a double holds every integer below \<open>2^53\<close> exactly).
\<close>

record 'n server =
  clients :: "(string \<times> 'n ClientConn) list"
  globalEventSeq :: nat
  wire :: "(string \<times> 'n frame) list"

definition server_init :: "'n server" where
  "server_init = \<lparr>clients = [], globalEventSeq = 1, wire = []\<rparr>"

definition broadcast :: "'n numops \<Rightarrow> string \<Rightarrow> 'n payload \<Rightarrow> 'n server \<Rightarrow> 'n server" where
  "broadcast ops event payload st =
     st\<lparr>wire := wire st @
           map (\<lambda>(k, c). (conn_id c,
                  \<lparr>frame_id = globalEventSeq st, frame_event = event, frame_data = payload\<rparr>))
               (clients st),
        clients := map (\<lambda>(k, c). (k, c\<lparr>lastEventId := nof_int ops (int (globalEventSeq st))\<rparr>))
                       (clients st),
        globalEventSeq := globalEventSeq st + 1\<rparr>"

text \<open>
  The handler of \<^verbatim>\<open>GET /mcp/sse\<close>. \<open>clientId\<close> is the value of
  \<^verbatim>\<open>randomUUID()\<close>, \<open>header\<close> that of \<^verbatim>\<open>req.header('Last-Event-ID')\<close>,
  \<open>created\<close> that of \<^verbatim>\<open>Date.now()\<close> and \<open>serverTime\<close> that of
  \<^verbatim>\<open>new Date().toISOString()\<close>.
\<close>

definition header_number :: "'n numops \<Rightarrow> string option \<Rightarrow> 'n" where
  "header_number ops header =
     (case header of
        None \<Rightarrow> nof_int ops 0
      | Some h \<Rightarrow> if h \<noteq> [] then nparse ops h else nof_int ops 0)"

definition new_conn :: "'n numops \<Rightarrow> string \<Rightarrow> string option \<Rightarrow> 'n \<Rightarrow> 'n ClientConn" where
  "new_conn ops clientId header created =
     \<lparr>conn_id = clientId, createdAt = created, lastEventId = header_number ops header\<rparr>"

definition sse_connect ::
  "'n numops \<Rightarrow> string \<Rightarrow> string option \<Rightarrow> 'n \<Rightarrow> string \<Rightarrow> 'n server \<Rightarrow> 'n server" where
  "sse_connect ops clientId header created serverTime st =
     (let st1 = st\<lparr>clients := AList.update clientId (new_conn ops clientId header created)
                                 (clients st)\<rparr>;
          st2 = st1\<lparr>wire := wire st1 @
                   [(clientId, \<lparr>frame_id = globalEventSeq st1, frame_event = ''welcome'',
                                frame_data = Welcome clientId serverTime\<rparr>)]\<rparr>;
          st3 = st2\<lparr>clients :=
                   AList.map_entry clientId
                     (\<lambda>c. c\<lparr>lastEventId := nof_int ops (int (globalEventSeq st2))\<rparr>)
                     (clients st2)\<rparr>
      in st3\<lparr>globalEventSeq := globalEventSeq st3 + 1\<rparr>)"

text \<open>The \<^verbatim>\<open>close\<close> listener of a connection.\<close>

definition sse_close :: "string \<Rightarrow> 'n server \<Rightarrow> 'n server" where
  "sse_close clientId st = st\<lparr>clients := AList.delete clientId (clients st)\<rparr>"

text \<open>
  The handler of \<^verbatim>\<open>POST /mcp/command\<close>. \<open>clock i\<close> is the time at which the
  entry at position \<open>i\<close> is dispatched (the \<open>now\<close> tool reads it). The loop stops
  where \<^verbatim>\<open>await handleRpc(r)\<close> rejects: the handler then sends no reply, and
  what it has broadcast so far stays broadcast.
\<close>

fun command_loop ::
  "'n numops \<Rightarrow> (nat \<Rightarrow> string) \<Rightarrow> nat \<Rightarrow> 'n jsval list \<Rightarrow> 'n response list \<Rightarrow> 'n server
     \<Rightarrow> (exn + 'n response list) \<times> 'n server" where
  "command_loop ops clock i [] responses st = (Inr responses, st)"
| "command_loop ops clock i (r # rs) responses st =
     (case handleRpc_server ops (clock i) r of
        Inl e \<Rightarrow> (Inl e, st)
      | Inr resp \<Rightarrow>
          command_loop ops clock (Suc i) rs (responses @ [resp])
            (broadcast ops ''rpc'' (Rpc resp) st))"

datatype 'n reply = Single "'n response" | Batch "'n response list"

fun isArray :: "'n jsval \<Rightarrow> bool" where
  "isArray (JArr xs) = True"
| "isArray v = False"

definition post_command ::
  "'n numops \<Rightarrow> (nat \<Rightarrow> string) \<Rightarrow> 'n jsval \<Rightarrow> 'n server \<Rightarrow> 'n reply option \<times> 'n server" where
  "post_command ops clock body st =
     (let requests = (case body of JArr xs \<Rightarrow> xs | _ \<Rightarrow> [body])
      in case command_loop ops clock 0 requests [] st of
           (Inl e, st') \<Rightarrow> (None, st')
         | (Inr responses, st') \<Rightarrow>
             (Some (if isArray body then Batch responses else Single (responses ! 0)), st'))"

text \<open>
  What happens to the server, one event at a time. A handler runs to its end
  before the next event is looked at: the tools of \<^verbatim>\<open>server.ts\<close> wait for
  nothing, so every \<^verbatim>\<open>await\<close> of the command handler resumes before the
  event loop takes the next connection, request or timer.
\<close>

datatype 'n event =
    SseConnect string "string option" 'n string
  | SseClose string
  | Command "nat \<Rightarrow> string" "'n jsval"
  | Timer 'n                      \<comment> \<open>the 10 second interval fires at \<^verbatim>\<open>Date.now() = ts\<close>\<close>

fun server_step :: "'n numops \<Rightarrow> 'n server \<Rightarrow> 'n event \<Rightarrow> 'n server" where
  "server_step ops st (SseConnect clientId header created serverTime) =
     sse_connect ops clientId header created serverTime st"
| "server_step ops st (SseClose clientId) = sse_close clientId st"
| "server_step ops st (Command clock body) = snd (post_command ops clock body st)"
| "server_step ops st (Timer ts) = broadcast ops ''tick'' (Tick ts) st"

definition server_run :: "'n numops \<Rightarrow> 'n event list \<Rightarrow> 'n server" where
  "server_run ops evs = foldl (server_step ops) server_init evs"

text \<open>
  To speak about what is on the wire: the ids of all frames in the order they were
  written, the ids written to one connection, and an event with the value of its
  \<^verbatim>\<open>Last-Event-ID\<close> header taken away.
\<close>

definition wire_ids :: "'n server \<Rightarrow> nat list" where
  "wire_ids st = map (\<lambda>p. frame_id (snd p)) (wire st)"

definition seen_by :: "string \<Rightarrow> 'n server \<Rightarrow> nat list" where
  "seen_by c st = map (\<lambda>p. frame_id (snd p)) (filter (\<lambda>p. fst p = c) (wire st))"

text \<open>
  The frames one broadcast with sequence id \<open>s\<close> writes: one to each registered
  connection, in the order of the registry.
\<close>

definition frames_to :: "'n server \<Rightarrow> nat \<Rightarrow> string \<Rightarrow> 'n payload \<Rightarrow> (string \<times> 'n frame) list" where
  "frames_to st s event payload =
     map (\<lambda>p. (conn_id (snd p), \<lparr>frame_id = s, frame_event = event, frame_data = payload\<rparr>))
         (clients st)"

text \<open>
  Invariants of the server state. The registry: keys are distinct and each
  connection sits under its own id. The wire: every id is below the counter, ids
  never go down, and no connection is sent an id twice.
\<close>

definition registry_ok :: "'n server \<Rightarrow> bool" where
  "registry_ok st =
     (distinct (map fst (clients st)) \<and> (\<forall>p \<in> set (clients st). conn_id (snd p) = fst p))"

definition wire_ok :: "'n server \<Rightarrow> bool" where
  "wire_ok st =
     ((\<forall>i \<in> set (wire_ids st). i < globalEventSeq st) \<and> sorted (wire_ids st) \<and>
      (\<forall>c. sorted_wrt (<) (seen_by c st)))"

fun without_header :: "'n event \<Rightarrow> 'n event" where
  "without_header (SseConnect clientId header created serverTime) =
     SseConnect clientId None created serverTime"
| "without_header ev = ev"

section \<open>The stdio transport of \<^verbatim>\<open>tavily.ts\<close>\<close>

text \<open>
  \<open>buffer\<close> is the variable of that name, \<open>inflight\<close> the requests whose
  \<^verbatim>\<open>handleRpc(req)\<close> promise has not settled yet, and \<open>stdout\<close> the lines
  written so far, each the value handed to \<^verbatim>\<open>JSON.stringify\<close>.
  Two built-ins of the engine are parameters: \<^verbatim>\<open>JSON.parse\<close>, which gives
  \<open>Inr\<close> the value or \<open>Inl\<close> the message of the SyntaxError it throws, and
  \<^verbatim>\<open>String.prototype.trim\<close>.
\<close>

record 'n engine =
  JSON_parse :: "string \<Rightarrow> string + 'n jsval"
  String_trim :: "string \<Rightarrow> string"

record 'n stdio =
  buffer :: string
  inflight :: "'n jsval list"
  stdout :: "'n response list"

definition newline :: char where
  "newline = CHR 0x0A"

definition parse_error :: "string \<Rightarrow> 'n response" where
  "parse_error msg = Failure JNull (- 32700) ''Parse error'' (Some (Diagnostic msg))"

text \<open>One turn of \<^verbatim>\<open>while ((idx = buffer.indexOf('\n')) >= 0)\<close>, on the line cut off.\<close>

definition on_line :: "'n engine \<Rightarrow> string \<Rightarrow> 'n stdio \<Rightarrow> 'n stdio" where
  "on_line eng line st =
     (if line = [] then st
      else case JSON_parse eng line of
             Inr req \<Rightarrow> st\<lparr>inflight := inflight st @ [req]\<rparr>
           | Inl msg \<Rightarrow> st\<lparr>stdout := stdout st @ [parse_error msg]\<rparr>)"

function drain :: "'n engine \<Rightarrow> 'n stdio \<Rightarrow> 'n stdio" where
  "drain eng st =
     (if newline \<in> set (buffer st) then
        drain eng
          (on_line eng (String_trim eng (takeWhile (\<lambda>c. c \<noteq> newline) (buffer st)))
             (st\<lparr>buffer := tl (dropWhile (\<lambda>c. c \<noteq> newline) (buffer st))\<rparr>))
      else st)"
  by pat_completeness auto
termination
proof (relation "measure (\<lambda>(eng, st). length (buffer st))")
  show "wf (measure (\<lambda>(eng, st). length (buffer st)))"
    by simp
next
  fix eng :: "'n engine" and st :: "'n stdio"
  assume nl: "newline \<in> set (buffer st)"
  have "dropWhile (\<lambda>c. c \<noteq> newline) (buffer st) \<noteq> []"
    using nl by (simp add: dropWhile_eq_Nil_conv)
  then have "length (tl (dropWhile (\<lambda>c. c \<noteq> newline) (buffer st))) < length (buffer st)"
    using length_dropWhile_le [of "\<lambda>c. c \<noteq> newline" "buffer st"]
    by (cases "dropWhile (\<lambda>c. c \<noteq> newline) (buffer st)") auto
  moreover have "buffer (on_line eng l s) = buffer s" for l and s :: "'n stdio"
    by (simp add: on_line_def split: sum.splits)
  ultimately show
    "((eng, on_line eng (String_trim eng (takeWhile (\<lambda>c. c \<noteq> newline) (buffer st)))
               (st\<lparr>buffer := tl (dropWhile (\<lambda>c. c \<noteq> newline) (buffer st))\<rparr>)),
      (eng, st)) \<in> measure (\<lambda>(eng, st). length (buffer st))"
    by simp
qed

text \<open>The listener of \<^verbatim>\<open>process.stdin.on('data', ...)\<close>.\<close>

definition on_data :: "'n engine \<Rightarrow> string \<Rightarrow> 'n stdio \<Rightarrow> 'n stdio" where
  "on_data eng chunk st = drain eng (st\<lparr>buffer := buffer st @ chunk\<rparr>)"

text \<open>
  The promise of the request at position \<open>i\<close> of \<open>inflight\<close> settles: resolved,
  its \<^verbatim>\<open>then\<close> callback writes the response; rejected, nothing is written.
\<close>

definition settle :: "'n numops \<Rightarrow> 'n tavily_env \<Rightarrow> nat \<Rightarrow> 'n stdio \<Rightarrow> 'n stdio" where
  "settle ops env i st =
     (if i < length (inflight st) then
        (case handleRpc_stdio ops env (inflight st ! i) of
           Inr resp \<Rightarrow>
             st\<lparr>inflight := take i (inflight st) @ drop (Suc i) (inflight st),
                stdout := stdout st @ [resp]\<rparr>
         | Inl e \<Rightarrow> st\<lparr>inflight := take i (inflight st) @ drop (Suc i) (inflight st)\<rparr>)
      else st)"

text \<open>
  The last statement of the module: the line that announces readiness. It is
  written while the module is loaded, before any \<^verbatim>\<open>data\<close> event can be
  delivered.
\<close>

definition ready_line :: "'n numops \<Rightarrow> 'n tavily_env \<Rightarrow> 'n response" where
  "ready_line ops env =
     Success JNull
       (JObj [(''ready'', JBool True),
              (''tools'', JArr (map JStr (Object_keys (TOOLS ops env))))])"

definition stdio_init :: "'n numops \<Rightarrow> 'n tavily_env \<Rightarrow> 'n stdio" where
  "stdio_init ops env = \<lparr>buffer = [], inflight = [], stdout = [ready_line ops env]\<rparr>"

text \<open>
  The events of a run: a chunk arrives, or a dispatch that is in flight settles.
  Dispatches may settle in any order.
\<close>

datatype stdio_event = Data string | Settled nat

fun stdio_step ::
  "'n engine \<Rightarrow> 'n numops \<Rightarrow> 'n tavily_env \<Rightarrow> 'n stdio \<Rightarrow> stdio_event \<Rightarrow> 'n stdio" where
  "stdio_step eng ops env st (Data chunk) = on_data eng chunk st"
| "stdio_step eng ops env st (Settled i) = settle ops env i st"

definition stdio_run ::
  "'n engine \<Rightarrow> 'n numops \<Rightarrow> 'n tavily_env \<Rightarrow> stdio_event list \<Rightarrow> 'n stdio" where
  "stdio_run eng ops env evs = foldl (stdio_step eng ops env) (stdio_init ops env) evs"

section \<open>An instance of the number interface\<close>

text \<open>
  To run the model on examples: the integers and \<^verbatim>\<open>NaN\<close> (\<open>None\<close>). It agrees
  with the engine on the integers a double holds exactly and on the strings of
  decimal digits; every other string counts as not a number.
\<close>

fun digits :: "nat \<Rightarrow> string" where
  "digits n = (if n < 10 then [char_of (48 + n)] else digits (n div 10) @ [char_of (48 + n mod 10)])"

definition show_int :: "int \<Rightarrow> string" where
  "show_int i = (if i < 0 then ''-'' @ digits (nat (- i)) else digits (nat i))"

definition is_digit :: "char \<Rightarrow> bool" where
  "is_digit c = (48 \<le> (of_char c :: nat) \<and> (of_char c :: nat) \<le> 57)"

definition parse_int :: "string \<Rightarrow> int option" where
  "parse_int s =
     (if s = [] then Some 0
      else if list_all is_digit s then Some (foldl (\<lambda>a c. 10 * a + (int (of_char c) - 48)) 0 s)
      else None)"

definition sample_ops :: "int option numops" where
  "sample_ops =
     \<lparr>nadd = (\<lambda>a b. case a of None \<Rightarrow> None | Some x \<Rightarrow> (case b of None \<Rightarrow> None | Some y \<Rightarrow> Some (x + y))),
      nof_int = Some,
      nnan = None,
      nfalsy = (\<lambda>a. a = None \<or> a = Some 0),
      nshow = (\<lambda>a. case a of None \<Rightarrow> ''NaN'' | Some i \<Rightarrow> show_int i),
      nparse = parse_int\<rparr>"

text \<open>An environment without API key, in which every search fails.\<close>

definition sample_env :: "int option tavily_env" where
  "sample_env = \<lparr>apiKey = JUndefined, search = (\<lambda>input. Inl (JsError ''fetch failed''))\<rparr>"

text \<open>
  A stand-in for the engine: a \<^verbatim>\<open>JSON.parse\<close> that knows one text, and a
  \<^verbatim>\<open>trim\<close> that strips the ASCII white space.
\<close>

definition whitespace :: "char \<Rightarrow> bool" where
  "whitespace c = (c \<in> set [CHR 0x09, CHR 0x0A, CHR 0x0B, CHR 0x0C, CHR 0x0D, CHR 0x20])"

definition ascii_trim :: "string \<Rightarrow> string" where
  "ascii_trim s = rev (dropWhile whitespace (rev (dropWhile whitespace s)))"

definition sample_engine :: "int option engine" where
  "sample_engine =
     \<lparr>JSON_parse = (\<lambda>s. if s = ''null'' then Inr JNull else Inl ''Unexpected token''),
      String_trim = ascii_trim\<rparr>"

section \<open>Properties of the dispatchers\<close>

lemma nullish_JNull: "nullish v JNull = (if v = JUndefined \<or> v = JNull then JNull else v)"
  by (cases v) simp_all

lemma rid_caught: "rid (caught i err) = i"
  by (simp add: caught_def)

lemma dispatch_server_rid:
  "dispatch_server ops now req = Inr resp \<Longrightarrow> rid resp = nullish (get_prop req ''id'') JNull"
  by (auto simp: dispatch_server_def Let_def split: if_splits sum.splits)

lemma dispatch_stdio_rid:
  "dispatch_stdio ops env req = Inr resp \<Longrightarrow> rid resp = nullish (get_prop req ''id'') JNull"
  by (auto simp: dispatch_stdio_def Let_def split: if_splits sum.splits)

lemma handleRpc_server_returns:
  assumes "req \<noteq> JNull" "req \<noteq> JUndefined"
  shows "\<exists>resp. handleRpc_server ops now req = Inr resp \<and> rid resp = nullish (get_prop req ''id'') JNull"
  using assms
  by (auto simp: handleRpc_server_def rid_caught dispatch_server_rid split: sum.splits)

lemma handleRpc_stdio_returns:
  assumes "req \<noteq> JNull" "req \<noteq> JUndefined"
  shows "\<exists>resp. handleRpc_stdio ops env req = Inr resp \<and> rid resp = nullish (get_prop req ''id'') JNull"
  using assms
  by (auto simp: handleRpc_stdio_def rid_caught dispatch_stdio_rid split: sum.splits)

lemma get_prop_falsy: "\<not> truthy ops v \<Longrightarrow> get_prop v k = JUndefined"
  by (cases v) simp_all

lemma get_prop_js_or_empty: "get_prop (js_or ops v (JObj [])) k = get_prop v k"
  by (simp add: js_or_def get_prop_falsy)

lemma tools_keys: "map_of (tools ops now) k = Some t \<Longrightarrow> k \<noteq> []"
  by (auto simp: tools_def split: if_splits)

lemma js_String_JStr: "js_String ops (JStr s) = Inr s"
  by (simp add: js_String_def)

lemma callTool_server_registered:
  assumes "get_prop params ''name'' = JStr k" and "map_of (tools ops now) k = Some t"
  shows "callTool_server ops now params = run t (get_prop params ''input'')"
  using assms tools_keys [OF assms(2)]
  by (simp add: callTool_server_def Let_def get_prop_js_or_empty js_String_JStr tools_get_def)

lemma callTool_stdio_registered:
  assumes "get_prop params ''name'' = JStr k" and "map_of (TOOLS ops env) k = Some t"
  shows "callTool_stdio ops env params = run t (js_or ops (get_prop params ''input'') (JObj []))"
  using assms
  by (simp add: callTool_stdio_def Let_def get_prop_js_or_empty tools_get_def)

lemma handleRpc_server_tool_error:
  assumes "get_prop req ''jsonrpc'' = JStr ''2.0''"
    and "get_prop req ''method'' = JStr ''callTool''"
    and "get_prop (get_prop req ''params'') ''name'' = JStr k"
    and "map_of (tools ops now) k = Some t"
    and "run t (get_prop (get_prop req ''params'') ''input'') = Inl err"
  shows "handleRpc_server ops now req = Inr (caught (nullish (get_prop req ''id'') JNull) err)"
proof -
  have "req \<noteq> JNull" "req \<noteq> JUndefined"
    using assms(1) by auto
  moreover have "dispatch_server ops now req = Inl err"
    using assms by (simp add: dispatch_server_def Let_def callTool_server_registered)
  ultimately show ?thesis
    using assms(1) by (simp add: handleRpc_server_def)
qed

lemma handleRpc_stdio_tool_error:
  assumes "get_prop req ''jsonrpc'' = JStr ''2.0''"
    and "get_prop req ''method'' = JStr ''callTool''"
    and "get_prop (get_prop req ''params'') ''name'' = JStr k"
    and "map_of (TOOLS ops env) k = Some t"
    and "run t (js_or ops (get_prop (get_prop req ''params'') ''input'') (JObj [])) = Inl err"
  shows "handleRpc_stdio ops env req = Inr (caught (nullish (get_prop req ''id'') JNull) err)"
proof -
  have "req \<noteq> JNull" "req \<noteq> JUndefined"
    using assms(1) by auto
  moreover have "dispatch_stdio ops env req = Inl err"
    using assms by (simp add: dispatch_stdio_def Let_def callTool_stdio_registered)
  ultimately show ?thesis
    using assms(1) by (simp add: handleRpc_stdio_def)
qed

text \<open>
  Claim C1: whatever request value is passed to it, \<^verbatim>\<open>handleRpc\<close> resolves to
  a response and never throws or rejects, every failure being turned into a
  Failure. The code goes for this (the dispatch sits in a \<^verbatim>\<open>try\<close> block, a
  request without the version tag is answered with -32600, and no caller handles
  a rejection) and misses one case: both functions read \<^verbatim>\<open>reqObj.jsonrpc\<close>
  before they enter the \<^verbatim>\<open>try\<close> block, and neither transport looks at what
  the parser has delivered. On \<^verbatim>\<open>null\<close> (the input line \<^verbatim>\<open>null\<close>, an entry
  of the batch \<^verbatim>\<open>[null]\<close>) the read throws and the promise is rejected.
\<close>

theorem handleRpc_rejects_null:
  "handleRpc_server sample_ops ''2026-01-01T00:00:00.000Z'' JNull =
     Inl (JsTypeError ''Cannot read properties of null (reading 'jsonrpc')'') \<and>
   handleRpc_stdio sample_ops sample_env JNull =
     Inl (JsTypeError ''Cannot read properties of null (reading 'jsonrpc')'')"
  by (simp add: handleRpc_server_def handleRpc_stdio_def null_read_def)

text \<open>
  How far the dispatchers keep the contract. Whatever request value other than
  \<^verbatim>\<open>null\<close> and \<^verbatim>\<open>undefined\<close> is passed to it (every object, and every array,
  string, number and boolean as well), \<^verbatim>\<open>handleRpc\<close> of either file resolves
  to a response, a Success or a Failure, and never rejects. Every error thrown
  inside its \<^verbatim>\<open>try\<close> block, the errors thrown by a tool's \<^verbatim>\<open>run\<close> among
  them, becomes a Failure with code -32000 that carries the request's id, the
  message of the error (\<^verbatim>\<open>Internal error\<close> where it is empty) and its stack.
\<close>

theorem handleRpc_always_responds:
  assumes "req \<noteq> JNull" and "req \<noteq> JUndefined"
  shows "(\<exists>resp. handleRpc_server ops now req = Inr resp) \<and>
         (\<exists>resp. handleRpc_stdio ops env req = Inr resp) \<and>
         (\<forall>err. get_prop req ''jsonrpc'' = JStr ''2.0'' \<and> dispatch_server ops now req = Inl err \<longrightarrow>
            handleRpc_server ops now req =
              Inr (Failure (nullish (get_prop req ''id'') JNull) (- 32000)
                     (if exn_message err = [] then ''Internal error'' else exn_message err)
                     (Some (Stack err)))) \<and>
         (\<forall>err. get_prop req ''jsonrpc'' = JStr ''2.0'' \<and> dispatch_stdio ops env req = Inl err \<longrightarrow>
            handleRpc_stdio ops env req =
              Inr (Failure (nullish (get_prop req ''id'') JNull) (- 32000)
                     (if exn_message err = [] then ''Internal error'' else exn_message err)
                     (Some (Stack err)))) \<and>
         (\<forall>k t err. get_prop req ''jsonrpc'' = JStr ''2.0'' \<and>
            get_prop req ''method'' = JStr ''callTool'' \<and>
            get_prop (get_prop req ''params'') ''name'' = JStr k \<and>
            map_of (tools ops now) k = Some t \<and>
            run t (get_prop (get_prop req ''params'') ''input'') = Inl err \<longrightarrow>
            handleRpc_server ops now req =
              Inr (Failure (nullish (get_prop req ''id'') JNull) (- 32000)
                     (if exn_message err = [] then ''Internal error'' else exn_message err)
                     (Some (Stack err)))) \<and>
         (\<forall>k t err. get_prop req ''jsonrpc'' = JStr ''2.0'' \<and>
            get_prop req ''method'' = JStr ''callTool'' \<and>
            get_prop (get_prop req ''params'') ''name'' = JStr k \<and>
            map_of (TOOLS ops env) k = Some t \<and>
            run t (js_or ops (get_prop (get_prop req ''params'') ''input'') (JObj [])) = Inl err \<longrightarrow>
            handleRpc_stdio ops env req =
              Inr (Failure (nullish (get_prop req ''id'') JNull) (- 32000)
                     (if exn_message err = [] then ''Internal error'' else exn_message err)
                     (Some (Stack err))))"
proof (intro conjI allI impI)
  show "\<exists>resp. handleRpc_server ops now req = Inr resp"
    using handleRpc_server_returns [OF assms] by blast
  show "\<exists>resp. handleRpc_stdio ops env req = Inr resp"
    using handleRpc_stdio_returns [OF assms] by blast
next
  fix err
  assume "get_prop req ''jsonrpc'' = JStr ''2.0'' \<and> dispatch_server ops now req = Inl err"
  then show "handleRpc_server ops now req =
      Inr (Failure (nullish (get_prop req ''id'') JNull) (- 32000)
             (if exn_message err = [] then ''Internal error'' else exn_message err)
             (Some (Stack err)))"
    using assms by (simp add: handleRpc_server_def caught_def)
next
  fix err
  assume "get_prop req ''jsonrpc'' = JStr ''2.0'' \<and> dispatch_stdio ops env req = Inl err"
  then show "handleRpc_stdio ops env req =
      Inr (Failure (nullish (get_prop req ''id'') JNull) (- 32000)
             (if exn_message err = [] then ''Internal error'' else exn_message err)
             (Some (Stack err)))"
    using assms by (simp add: handleRpc_stdio_def caught_def)
next
  fix k t err
  assume "get_prop req ''jsonrpc'' = JStr ''2.0'' \<and>
            get_prop req ''method'' = JStr ''callTool'' \<and>
            get_prop (get_prop req ''params'') ''name'' = JStr k \<and>
            map_of (tools ops now) k = Some t \<and>
            run t (get_prop (get_prop req ''params'') ''input'') = Inl err"
  then show "handleRpc_server ops now req =
      Inr (Failure (nullish (get_prop req ''id'') JNull) (- 32000)
             (if exn_message err = [] then ''Internal error'' else exn_message err)
             (Some (Stack err)))"
    using handleRpc_server_tool_error [of req k ops now t err] by (simp add: caught_def)
next
  fix k t err
  assume "get_prop req ''jsonrpc'' = JStr ''2.0'' \<and>
            get_prop req ''method'' = JStr ''callTool'' \<and>
            get_prop (get_prop req ''params'') ''name'' = JStr k \<and>
            map_of (TOOLS ops env) k = Some t \<and>
            run t (js_or ops (get_prop (get_prop req ''params'') ''input'') (JObj [])) = Inl err"
  then show "handleRpc_stdio ops env req =
      Inr (Failure (nullish (get_prop req ''id'') JNull) (- 32000)
             (if exn_message err = [] then ''Internal error'' else exn_message err)
             (Some (Stack err)))"
    using handleRpc_stdio_tool_error [of req k ops env t err] by (simp add: caught_def)
qed

text \<open>
  Claim C2. The response of \<^verbatim>\<open>handleRpc\<close> (of either file) carries the id of the
  request where the request has one, and \<^verbatim>\<open>null\<close> where the id is absent or
  \<^verbatim>\<open>null\<close>, whatever the method and whether the response is a Success or a
  Failure.
\<close>

theorem response_id_echoes_request_id:
  assumes "req \<noteq> JNull" and "req \<noteq> JUndefined"
  shows "(\<exists>resp. handleRpc_server ops now req = Inr resp \<and>
            rid resp = (if get_prop req ''id'' = JUndefined \<or> get_prop req ''id'' = JNull
                        then JNull else get_prop req ''id'')) \<and>
         (\<exists>resp. handleRpc_stdio ops env req = Inr resp \<and>
            rid resp = (if get_prop req ''id'' = JUndefined \<or> get_prop req ''id'' = JNull
                        then JNull else get_prop req ''id''))"
  using handleRpc_server_returns [OF assms, of ops now]
        handleRpc_stdio_returns [OF assms, of ops env]
  by (simp only: nullish_JNull)

lemmas eval_defs = handleRpc_server_def handleRpc_stdio_def dispatch_server_def dispatch_stdio_def
  callTool_server_def callTool_stdio_def tools_def TOOLS_def tools_get_def js_or_def js_String_def
  js_Number_def caught_def Object_values_def Object_keys_def object_prototype_keys_def
  sum_step_def echo_run_def now_run_def tavily_run_def not_a_function_def cannot_convert_def
  null_read_def sample_ops_def sample_env_def Let_def

theorem handleRpc_always_responds_witness:
  "handleRpc_server sample_ops ''2026-01-01T00:00:00.000Z''
     (JObj [(''jsonrpc'', JStr ''2.0''), (''id'', JNum (Some 7)), (''method'', JStr ''callTool''),
            (''params'', JObj [(''name'', JStr ''sum''), (''input'', JStr ''12'')])]) =
     Inr (Failure (JNum (Some 7)) (- 32000) ''Input must be array of numbers''
            (Some (Stack (JsError ''Input must be array of numbers'')))) \<and>
   (\<exists>resp. handleRpc_stdio sample_ops sample_env
     (JObj [(''jsonrpc'', JStr ''2.0''), (''id'', JNum (Some 7)), (''method'', JStr ''callTool''),
            (''params'', JObj [(''name'', JStr ''sum''), (''input'', JStr ''12'')])]) = Inr resp)"
  using handleRpc_always_responds
    [of "JObj [(''jsonrpc'', JStr ''2.0''), (''id'', JNum (Some 7)), (''method'', JStr ''callTool''),
            (''params'', JObj [(''name'', JStr ''sum''), (''input'', JStr ''12'')])]"
        sample_ops "''2026-01-01T00:00:00.000Z''" sample_env]
  by (simp add: eval_defs)

theorem response_id_echoes_request_id_witness:
  "handleRpc_server sample_ops ''2026-01-01T00:00:00.000Z''
     (JObj [(''jsonrpc'', JStr ''2.0''), (''id'', JNum (Some 1)), (''method'', JStr ''ping'')]) =
     Inr (Success (JNum (Some 1)) (JObj [(''pong'', JBool True)])) \<and>
   handleRpc_stdio sample_ops sample_env
     (JObj [(''jsonrpc'', JStr ''2.0''), (''id'', JNum (Some 1)), (''method'', JStr ''ping'')]) =
     Inr (Success (JNum (Some 1)) (JObj [(''pong'', JBool True)])) \<and>
   handleRpc_server sample_ops ''2026-01-01T00:00:00.000Z''
     (JObj [(''jsonrpc'', JStr ''1.0''), (''method'', JStr ''ping'')]) =
     Inr (Failure JNull (- 32600) ''Invalid JSON-RPC version'' None)"
  using response_id_echoes_request_id
    [of "JObj [(''jsonrpc'', JStr ''2.0''), (''id'', JNum (Some 1)), (''method'', JStr ''ping'')]"
        sample_ops "''2026-01-01T00:00:00.000Z''" sample_env]
  by (simp add: eval_defs)

subsection \<open>Names that are not registered\<close>

lemma callTool_server_not_found:
  assumes "convertible (get_prop params ''name'')"
    and "\<not> truthy ops (get_prop params ''name'') \<or>
         tools_get (tools ops now) (to_string ops (get_prop params ''name'')) = Missing"
  shows "callTool_server ops now params =
           Inl (JsError (''Tool not found: '' @ to_string ops (get_prop params ''name'')))"
  using assms
  by (auto simp: callTool_server_def Let_def get_prop_js_or_empty js_String_def)

lemma callTool_stdio_not_found:
  assumes "convertible (get_prop params ''name'')"
    and "(\<forall>k. get_prop params ''name'' \<noteq> JStr k) \<or>
         tools_get (TOOLS ops env) (to_string ops (get_prop params ''name'')) = Missing"
  shows "callTool_stdio ops env params =
           Inl (JsError (''Tool not found: '' @ to_string ops (get_prop params ''name'')))"
  using assms
  by (cases "get_prop params ''name''")
     (force simp: callTool_stdio_def Let_def get_prop_js_or_empty js_String_def)+

text \<open>
  Claim C3 says that a \<^verbatim>\<open>callTool\<close> whose name is missing, is no string or
  names no registered tool fails with code -32000 and the message
  \<^verbatim>\<open>Tool not found: <name>\<close>. The two lemmas above are how far the code goes.
  It does not get there for a name that \<^verbatim>\<open>Object.prototype\<close> defines: the
  registries are plain objects, \<^verbatim>\<open>tools['constructor']\<close> is a function and
  \<^verbatim>\<open>'constructor' in TOOLS\<close> is true, so both dispatchers go on to call a
  \<^verbatim>\<open>run\<close> that is not there, and the failure carries the message of that
  TypeError. \<^verbatim>\<open>server.ts\<close>, which does not test the type of the name as
  \<^verbatim>\<open>tavily.ts\<close> does, runs \<^verbatim>\<open>echo\<close> for the name \<^verbatim>\<open>['echo']\<close>, which
  is no string, and answers with a Success.
\<close>

theorem callTool_inherited_and_array_names:
  "handleRpc_server ops now
     (JObj [(''jsonrpc'', JStr ''2.0''), (''id'', JStr ''a''), (''method'', JStr ''callTool''),
            (''params'', JObj [(''name'', JStr ''constructor'')])]) =
     Inr (Failure (JStr ''a'') (- 32000) ''tools[name].run is not a function''
            (Some (Stack (JsTypeError ''tools[name].run is not a function'')))) \<and>
   handleRpc_stdio ops env
     (JObj [(''jsonrpc'', JStr ''2.0''), (''id'', JStr ''a''), (''method'', JStr ''callTool''),
            (''params'', JObj [(''name'', JStr ''constructor'')])]) =
     Inr (Failure (JStr ''a'') (- 32000) ''tool.run is not a function''
            (Some (Stack (JsTypeError ''tool.run is not a function'')))) \<and>
   handleRpc_server ops now
     (JObj [(''jsonrpc'', JStr ''2.0''), (''id'', JStr ''a''), (''method'', JStr ''callTool''),
            (''params'', JObj [(''name'', JArr [JStr ''echo'']), (''input'', JStr ''hi'')])]) =
     Inr (Success (JStr ''a'') (JObj [(''echo'', JStr ''hi'')]))"
  by (simp add: handleRpc_server_def handleRpc_stdio_def dispatch_server_def dispatch_stdio_def
       callTool_server_def callTool_stdio_def tools_def TOOLS_def tools_get_def js_or_def js_String_def
       caught_def object_prototype_keys_def echo_run_def not_a_function_def Let_def)

subsection \<open>The \<^verbatim>\<open>sum\<close> tool\<close>

lemma reduce_sum_step:
  "list_all convertible xs \<Longrightarrow>
   reduce (sum_step ops) acc xs =
     Inr (foldl (\<lambda>a v. nadd ops a (to_number ops (if truthy ops v then v else JNum (nof_int ops 0))))
            acc xs)"
proof (induction xs arbitrary: acc)
  case Nil
  then show ?case by simp
next
  case (Cons v vs)
  then show ?case
    by (simp add: sum_step_def js_Number_def js_or_def)
qed

lemma reduce_sum_step_throws:
  "\<not> list_all convertible xs \<Longrightarrow> reduce (sum_step ops) acc xs = Inl cannot_convert"
proof (induction xs arbitrary: acc)
  case Nil
  then show ?case by simp
next
  case (Cons v vs)
  show ?case
  proof (cases "convertible v")
    case True
    then have "\<not> list_all convertible vs" using Cons.prems by simp
    then show ?thesis
      using True Cons.IH by (simp add: sum_step_def js_Number_def js_or_def)
  next
    case False
    then have "truthy ops v" by (cases v) auto
    then show ?thesis
      using False by (simp add: sum_step_def js_Number_def js_or_def)
  qed
qed

lemma handleRpc_server_tool_result:
  assumes "get_prop req ''jsonrpc'' = JStr ''2.0''"
    and "get_prop req ''method'' = JStr ''callTool''"
    and "get_prop (get_prop req ''params'') ''name'' = JStr k"
    and "map_of (tools ops now) k = Some t"
    and "run t (get_prop (get_prop req ''params'') ''input'') = Inr r"
  shows "handleRpc_server ops now req = Inr (Success (nullish (get_prop req ''id'') JNull) r)"
proof -
  have "req \<noteq> JNull" "req \<noteq> JUndefined"
    using assms(1) by auto
  moreover have "dispatch_server ops now req = Inr (Success (nullish (get_prop req ''id'') JNull) r)"
    using assms by (simp add: dispatch_server_def Let_def callTool_server_registered)
  ultimately show ?thesis
    using assms(1) by (simp add: handleRpc_server_def)
qed

lemma sum_registered: "map_of (tools ops now) ''sum'' = Some t \<Longrightarrow> run t = sum_run ops"
  by (auto simp: tools_def)

lemma sum_is_registered: "\<exists>t. map_of (tools ops now) ''sum'' = Some t \<and> run t = sum_run ops"
  by (simp add: tools_def)

lemma sum_run_not_array:
  "\<not> isArray v \<Longrightarrow> sum_run ops v = Inl (JsError ''Input must be array of numbers'')"
  by (cases v) simp_all

text \<open>
  Claim C10, as amended. A \<^verbatim>\<open>callTool\<close> of \<^verbatim>\<open>sum\<close> whose input is an array
  all of whose elements convert to a number (every value but an object with an own
  \<^verbatim>\<open>toString\<close> property, directly or inside nested arrays) succeeds with
  \<^verbatim>\<open>{total}\<close>, the fold from the left that starts at 0 and adds
  \<^verbatim>\<open>Number(v || 0)\<close> for each element: the empty array gives 0 and a falsy
  element adds 0. An array with an element that does not convert fails with code
  -32000 and the message of the TypeError; an input that is no array fails with
  code -32000 and the message \<^verbatim>\<open>Input must be array of numbers\<close>.
\<close>

theorem sum_tool_total:
  assumes "get_prop req ''jsonrpc'' = JStr ''2.0''"
    and "get_prop req ''method'' = JStr ''callTool''"
    and "get_prop (get_prop req ''params'') ''name'' = JStr ''sum''"
  shows "(\<forall>xs. get_prop (get_prop req ''params'') ''input'' = JArr xs \<and> list_all convertible xs \<longrightarrow>
            handleRpc_server ops now req =
              Inr (Success (nullish (get_prop req ''id'') JNull)
                     (JObj [(''total'',
                        JNum (foldl (\<lambda>acc v. nadd ops acc
                                       (to_number ops (if truthy ops v then v else JNum (nof_int ops 0))))
                                (nof_int ops 0) xs))]))) \<and>
         (get_prop (get_prop req ''params'') ''input'' = JArr [] \<longrightarrow>
            handleRpc_server ops now req =
              Inr (Success (nullish (get_prop req ''id'') JNull)
                     (JObj [(''total'', JNum (nof_int ops 0))]))) \<and>
         (\<forall>v. \<not> truthy ops v \<longrightarrow>
            to_number ops (if truthy ops v then v else JNum (nof_int ops 0)) = nof_int ops 0) \<and>
         (\<forall>xs. get_prop (get_prop req ''params'') ''input'' = JArr xs \<and> \<not> list_all convertible xs \<longrightarrow>
            handleRpc_server ops now req =
              Inr (Failure (nullish (get_prop req ''id'') JNull) (- 32000)
                     ''Cannot convert object to primitive value''
                     (Some (Stack (JsTypeError ''Cannot convert object to primitive value''))))) \<and>
         (\<not> isArray (get_prop (get_prop req ''params'') ''input'') \<longrightarrow>
            handleRpc_server ops now req =
              Inr (Failure (nullish (get_prop req ''id'') JNull) (- 32000)
                     ''Input must be array of numbers''
                     (Some (Stack (JsError ''Input must be array of numbers'')))))"
proof -
  obtain t where t: "map_of (tools ops now) ''sum'' = Some t" "run t = sum_run ops"
    using sum_is_registered by blast
  note ok = handleRpc_server_tool_result [OF assms t(1)]
  note ko = handleRpc_server_tool_error [OF assms t(1)]
  have a: "handleRpc_server ops now req =
              Inr (Success (nullish (get_prop req ''id'') JNull)
                     (JObj [(''total'',
                        JNum (foldl (\<lambda>acc v. nadd ops acc
                                       (to_number ops (if truthy ops v then v else JNum (nof_int ops 0))))
                                (nof_int ops 0) xs))]))"
    if "get_prop (get_prop req ''params'') ''input'' = JArr xs" "list_all convertible xs" for xs
    using that by (intro ok) (simp add: t(2) reduce_sum_step)
  have b: "handleRpc_server ops now req =
              Inr (Failure (nullish (get_prop req ''id'') JNull) (- 32000)
                     ''Cannot convert object to primitive value''
                     (Some (Stack (JsTypeError ''Cannot convert object to primitive value''))))"
    if "get_prop (get_prop req ''params'') ''input'' = JArr xs" "\<not> list_all convertible xs" for xs
  proof -
    have "run t (get_prop (get_prop req ''params'') ''input'') = Inl cannot_convert"
      using that by (simp add: t(2) reduce_sum_step_throws)
    from ko [OF this] show ?thesis
      by (simp add: caught_def cannot_convert_def)
  qed
  have c: "handleRpc_server ops now req =
              Inr (Failure (nullish (get_prop req ''id'') JNull) (- 32000)
                     ''Input must be array of numbers''
                     (Some (Stack (JsError ''Input must be array of numbers''))))"
    if "\<not> isArray (get_prop (get_prop req ''params'') ''input'')"
  proof -
    have "run t (get_prop (get_prop req ''params'') ''input'') =
            Inl (JsError ''Input must be array of numbers'')"
      using that by (simp add: t(2) sum_run_not_array)
    from ko [OF this] show ?thesis
      by (simp add: caught_def)
  qed
  have d: "to_number ops (if truthy ops v then v else JNum (nof_int ops 0)) = nof_int ops 0"
    if "\<not> truthy ops v" for v
    using that by simp
  show ?thesis
    using a [of "[]"] a b c d by simp
qed

theorem sum_tool_total_witness:
  "handleRpc_server sample_ops ''2026-01-01T00:00:00.000Z''
     (JObj [(''jsonrpc'', JStr ''2.0''), (''id'', JNum (Some 2)), (''method'', JStr ''callTool''),
            (''params'', JObj [(''name'', JStr ''sum''),
                               (''input'', JArr [JNum (Some 1), JNum (Some 2), JNum (Some 3)])])]) =
     Inr (Success (JNum (Some 2)) (JObj [(''total'', JNum (Some 6))]))"
  using sum_tool_total
    [of "JObj [(''jsonrpc'', JStr ''2.0''), (''id'', JNum (Some 2)), (''method'', JStr ''callTool''),
            (''params'', JObj [(''name'', JStr ''sum''),
                               (''input'', JArr [JNum (Some 1), JNum (Some 2), JNum (Some 3)])])]"
        sample_ops "''2026-01-01T00:00:00.000Z''"]
  by (simp add: sample_ops_def)

text \<open>
  Claim C10 as stated promises \<^verbatim>\<open>{total}\<close> for every array input. The array
  \<^verbatim>\<open>[{"toString": 1}]\<close> is answered with a Failure: \<^verbatim>\<open>Number\<close> throws on its
  element.
\<close>

theorem sum_tool_total_counterexample:
  "handleRpc_server sample_ops ''2026-01-01T00:00:00.000Z''
     (JObj [(''jsonrpc'', JStr ''2.0''), (''id'', JNum (Some 2)), (''method'', JStr ''callTool''),
            (''params'', JObj [(''name'', JStr ''sum''),
                               (''input'', JArr [JObj [(''toString'', JNum (Some 1))]])])]) =
     Inr (Failure (JNum (Some 2)) (- 32000) ''Cannot convert object to primitive value''
            (Some (Stack (JsTypeError ''Cannot convert object to primitive value''))))"
  by (simp add: eval_defs)

subsection \<open>\<^verbatim>\<open>listTools\<close>\<close>

lemma handleRpc_server_listTools:
  assumes "get_prop req ''jsonrpc'' = JStr ''2.0''" and "get_prop req ''method'' = JStr ''listTools''"
  shows "handleRpc_server ops now req =
           Inr (Success (nullish (get_prop req ''id'') JNull)
                  (JArr (map (\<lambda>t. JObj [(''name'', JStr (name t)),
                                          (''description'', JStr (description t))])
                             (map snd (tools ops now)))))"
proof -
  have "req \<noteq> JNull" "req \<noteq> JUndefined"
    using assms(1) by auto
  then show ?thesis
    using assms by (simp add: handleRpc_server_def dispatch_server_def Let_def Object_values_def)
qed

lemma handleRpc_stdio_listTools:
  assumes "get_prop req ''jsonrpc'' = JStr ''2.0''" and "get_prop req ''method'' = JStr ''listTools''"
  shows "handleRpc_stdio ops env req =
           Inr (Success (nullish (get_prop req ''id'') JNull)
                  (JArr (map (\<lambda>t. JObj [(''name'', JStr (name t)),
                                          (''description'', JStr (description t)),
                                          (''inputSchema'', inputSchema t)])
                             (map snd (TOOLS ops env)))))"
proof -
  have "req \<noteq> JNull" "req \<noteq> JUndefined"
    using assms(1) by auto
  then show ?thesis
    using assms by (simp add: handleRpc_stdio_def dispatch_stdio_def Let_def Object_values_def)
qed

lemma tools_public_stable:
  "map (\<lambda>t. JObj [(''name'', JStr (name t)), (''description'', JStr (description t))])
       (map snd (tools ops now)) =
   map (\<lambda>t. JObj [(''name'', JStr (name t)), (''description'', JStr (description t))])
       (map snd (tools ops now'))"
  by (simp add: tools_def)

lemma TOOLS_public_stable:
  "map (\<lambda>t. JObj [(''name'', JStr (name t)), (''description'', JStr (description t)),
                   (''inputSchema'', inputSchema t)])
       (map snd (TOOLS ops env)) =
   map (\<lambda>t. JObj [(''name'', JStr (name t)), (''description'', JStr (description t)),
                   (''inputSchema'', inputSchema t)])
       (map snd (TOOLS ops env'))"
  by (simp add: TOOLS_def)

lemma tools_no_schema: "t \<in> set (map snd (tools ops now)) \<Longrightarrow> inputSchema t = JUndefined"
  by (auto simp: tools_def)

text \<open>
  Claim C8. The result of \<^verbatim>\<open>listTools\<close> (of either file) is a list with one
  entry for each registered tool, in the order of registration. An entry gives the
  name, the description and the input schema of its tool (the tools of
  \<^verbatim>\<open>server.ts\<close> declare no schema, and their entries have no such property);
  it has no other property, so never \<^verbatim>\<open>run\<close>. The list is the same for every
  \<^verbatim>\<open>listTools\<close> request, whenever it is made.
\<close>

theorem listTools_public_descriptors:
  assumes "get_prop req ''jsonrpc'' = JStr ''2.0''" and "get_prop req ''method'' = JStr ''listTools''"
  shows "(\<exists>es. handleRpc_server ops now req = Inr (Success (nullish (get_prop req ''id'') JNull) (JArr es)) \<and>
            length es = length (tools ops now) \<and>
            map (\<lambda>e. get_prop e ''name'') es = [JStr ''echo'', JStr ''now'', JStr ''sum''] \<and>
            (\<forall>j<length es.
               get_prop (es ! j) ''name'' = JStr (name (snd (tools ops now ! j))) \<and>
               get_prop (es ! j) ''description'' = JStr (description (snd (tools ops now ! j))) \<and>
               get_prop (es ! j) ''inputSchema'' = inputSchema (snd (tools ops now ! j)) \<and>
               get_prop (es ! j) ''run'' = JUndefined \<and>
               own_keys (es ! j) = [''name'', ''description'']) \<and>
            (\<forall>now' req'. get_prop req' ''jsonrpc'' = JStr ''2.0'' \<and>
                 get_prop req' ''method'' = JStr ''listTools'' \<longrightarrow>
               handleRpc_server ops now' req' =
                 Inr (Success (nullish (get_prop req' ''id'') JNull) (JArr es)))) \<and>
         (\<exists>es. handleRpc_stdio ops env req = Inr (Success (nullish (get_prop req ''id'') JNull) (JArr es)) \<and>
            length es = length (TOOLS ops env) \<and>
            map (\<lambda>e. get_prop e ''name'') es = [JStr ''tavily_search''] \<and>
            (\<forall>j<length es.
               get_prop (es ! j) ''name'' = JStr (name (snd (TOOLS ops env ! j))) \<and>
               get_prop (es ! j) ''description'' = JStr (description (snd (TOOLS ops env ! j))) \<and>
               get_prop (es ! j) ''inputSchema'' = inputSchema (snd (TOOLS ops env ! j)) \<and>
               get_prop (es ! j) ''run'' = JUndefined \<and>
               own_keys (es ! j) = [''name'', ''description'', ''inputSchema'']) \<and>
            (\<forall>env' req'. get_prop req' ''jsonrpc'' = JStr ''2.0'' \<and>
                 get_prop req' ''method'' = JStr ''listTools'' \<longrightarrow>
               handleRpc_stdio ops env' req' =
                 Inr (Success (nullish (get_prop req' ''id'') JNull) (JArr es))))"
proof (rule conjI)
  let ?es = "map (\<lambda>t. JObj [(''name'', JStr (name t)), (''description'', JStr (description t))])
                 (map snd (tools ops now))"
  have 1: "handleRpc_server ops now req = Inr (Success (nullish (get_prop req ''id'') JNull) (JArr ?es))"
    by (rule handleRpc_server_listTools [OF assms])
  have 2: "length ?es = length (tools ops now)"
    by simp
  have 3: "map (\<lambda>e. get_prop e ''name'') ?es = [JStr ''echo'', JStr ''now'', JStr ''sum'']"
    by (simp add: tools_def)
  have 4: "get_prop (?es ! j) ''name'' = JStr (name (snd (tools ops now ! j))) \<and>
           get_prop (?es ! j) ''description'' = JStr (description (snd (tools ops now ! j))) \<and>
           get_prop (?es ! j) ''inputSchema'' = inputSchema (snd (tools ops now ! j)) \<and>
           get_prop (?es ! j) ''run'' = JUndefined \<and>
           own_keys (?es ! j) = [''name'', ''description'']" if "j < length ?es" for j
  proof -
    have j: "j < length (tools ops now)" using that by simp
    then have "snd (tools ops now ! j) \<in> set (map snd (tools ops now))"
      by (metis length_map nth_map nth_mem)
    then have "inputSchema (snd (tools ops now ! j)) = JUndefined"
      by (rule tools_no_schema)
    then show ?thesis using j by simp
  qed
  have 5: "handleRpc_server ops now' req' =
             Inr (Success (nullish (get_prop req' ''id'') JNull) (JArr ?es))"
    if "get_prop req' ''jsonrpc'' = JStr ''2.0'' \<and> get_prop req' ''method'' = JStr ''listTools''"
    for now' req'
    using that handleRpc_server_listTools [of req' ops now'] tools_public_stable [of ops now now']
    by metis
  show "\<exists>es. handleRpc_server ops now req = Inr (Success (nullish (get_prop req ''id'') JNull) (JArr es)) \<and>
            length es = length (tools ops now) \<and>
            map (\<lambda>e. get_prop e ''name'') es = [JStr ''echo'', JStr ''now'', JStr ''sum''] \<and>
            (\<forall>j<length es.
               get_prop (es ! j) ''name'' = JStr (name (snd (tools ops now ! j))) \<and>
               get_prop (es ! j) ''description'' = JStr (description (snd (tools ops now ! j))) \<and>
               get_prop (es ! j) ''inputSchema'' = inputSchema (snd (tools ops now ! j)) \<and>
               get_prop (es ! j) ''run'' = JUndefined \<and>
               own_keys (es ! j) = [''name'', ''description'']) \<and>
            (\<forall>now' req'. get_prop req' ''jsonrpc'' = JStr ''2.0'' \<and>
                 get_prop req' ''method'' = JStr ''listTools'' \<longrightarrow>
               handleRpc_server ops now' req' =
                 Inr (Success (nullish (get_prop req' ''id'') JNull) (JArr es)))"
    using 1 2 3 4 5 by (intro exI [of _ ?es]) blast
next
  let ?es = "map (\<lambda>t. JObj [(''name'', JStr (name t)), (''description'', JStr (description t)),
                             (''inputSchema'', inputSchema t)])
                 (map snd (TOOLS ops env))"
  have 1: "handleRpc_stdio ops env req = Inr (Success (nullish (get_prop req ''id'') JNull) (JArr ?es))"
    by (rule handleRpc_stdio_listTools [OF assms])
  have 2: "length ?es = length (TOOLS ops env)"
    by simp
  have 3: "map (\<lambda>e. get_prop e ''name'') ?es = [JStr ''tavily_search'']"
    by (simp add: TOOLS_def)
  have 4: "get_prop (?es ! j) ''name'' = JStr (name (snd (TOOLS ops env ! j))) \<and>
           get_prop (?es ! j) ''description'' = JStr (description (snd (TOOLS ops env ! j))) \<and>
           get_prop (?es ! j) ''inputSchema'' = inputSchema (snd (TOOLS ops env ! j)) \<and>
           get_prop (?es ! j) ''run'' = JUndefined \<and>
           own_keys (?es ! j) = [''name'', ''description'', ''inputSchema'']" if "j < length ?es" for j
    using that by simp
  have 5: "handleRpc_stdio ops env' req' =
             Inr (Success (nullish (get_prop req' ''id'') JNull) (JArr ?es))"
    if "get_prop req' ''jsonrpc'' = JStr ''2.0'' \<and> get_prop req' ''method'' = JStr ''listTools''"
    for env' req'
    using that handleRpc_stdio_listTools [of req' ops env'] TOOLS_public_stable [of ops env env']
    by metis
  show "\<exists>es. handleRpc_stdio ops env req = Inr (Success (nullish (get_prop req ''id'') JNull) (JArr es)) \<and>
            length es = length (TOOLS ops env) \<and>
            map (\<lambda>e. get_prop e ''name'') es = [JStr ''tavily_search''] \<and>
            (\<forall>j<length es.
               get_prop (es ! j) ''name'' = JStr (name (snd (TOOLS ops env ! j))) \<and>
               get_prop (es ! j) ''description'' = JStr (description (snd (TOOLS ops env ! j))) \<and>
               get_prop (es ! j) ''inputSchema'' = inputSchema (snd (TOOLS ops env ! j)) \<and>
               get_prop (es ! j) ''run'' = JUndefined \<and>
               own_keys (es ! j) = [''name'', ''description'', ''inputSchema'']) \<and>
            (\<forall>env' req'. get_prop req' ''jsonrpc'' = JStr ''2.0'' \<and>
                 get_prop req' ''method'' = JStr ''listTools'' \<longrightarrow>
               handleRpc_stdio ops env' req' =
                 Inr (Success (nullish (get_prop req' ''id'') JNull) (JArr es)))"
    using 1 2 3 4 5 by (intro exI [of _ ?es]) blast
qed

theorem listTools_public_descriptors_witness:
  "(\<exists>d1 d2 d3. handleRpc_server sample_ops ''2026-01-01T00:00:00.000Z''
     (JObj [(''jsonrpc'', JStr ''2.0''), (''id'', JStr ''x''), (''method'', JStr ''listTools'')]) =
     Inr (Success (JStr ''x'')
            (JArr [JObj [(''name'', JStr ''echo''), (''description'', JStr d1)],
                   JObj [(''name'', JStr ''now''), (''description'', JStr d2)],
                   JObj [(''name'', JStr ''sum''), (''description'', JStr d3)]])))"
  using listTools_public_descriptors
    [of "JObj [(''jsonrpc'', JStr ''2.0''), (''id'', JStr ''x''), (''method'', JStr ''listTools'')]"
        sample_ops "''2026-01-01T00:00:00.000Z''" sample_env]
  by (simp add: eval_defs)

section \<open>Properties of the SSE server\<close>

lemma broadcast_seq [simp]: "globalEventSeq (broadcast ops ev d st) = globalEventSeq st + 1"
  by (simp add: broadcast_def)

lemma broadcast_wire:
  "wire (broadcast ops ev d st) =
     wire st @ map (\<lambda>c. (conn_id c, \<lparr>frame_id = globalEventSeq st, frame_event = ev, frame_data = d\<rparr>))
                   (map snd (clients st))"
  by (simp add: broadcast_def case_prod_beta comp_def)

lemma broadcast_keys [simp]: "map fst (clients (broadcast ops ev d st)) = map fst (clients st)"
  by (simp add: broadcast_def case_prod_beta comp_def)

lemma broadcast_conn_ids [simp]:
  "map (\<lambda>p. conn_id (snd p)) (clients (broadcast ops ev d st)) = map (\<lambda>p. conn_id (snd p)) (clients st)"
  by (simp add: broadcast_def case_prod_beta comp_def)

lemma sse_connect_seq [simp]:
  "globalEventSeq (sse_connect ops c h t s st) = globalEventSeq st + 1"
  by (simp add: sse_connect_def Let_def)

lemma sse_connect_wire:
  "wire (sse_connect ops c h t s st) =
     wire st @ [(c, \<lparr>frame_id = globalEventSeq st, frame_event = ''welcome'',
                      frame_data = Welcome c s\<rparr>)]"
  by (simp add: sse_connect_def Let_def)

lemma map_entry_update:
  "AList.map_entry k f (AList.update k v al) = AList.update k (f v) al"
  by (induction al) auto

lemma sse_connect_clients:
  "clients (sse_connect ops c h t s st) =
     AList.update c \<lparr>conn_id = c, createdAt = t, lastEventId = nof_int ops (int (globalEventSeq st))\<rparr>
       (clients st)"
  by (simp add: sse_connect_def Let_def map_entry_update new_conn_def)

lemma update_conn_ids:
  "\<forall>p \<in> set al. conn_id (snd p) = fst p \<Longrightarrow> conn_id v = k \<Longrightarrow>
   \<forall>p \<in> set (AList.update k v al). conn_id (snd p) = fst p"
  by (induction al) auto

lemma delete_conn_ids:
  "\<forall>p \<in> set al. conn_id (snd p) = fst p \<Longrightarrow>
   \<forall>p \<in> set (AList.delete k al). conn_id (snd p) = fst p"
  by (auto simp: AList.delete_eq)

lemma broadcast_conn_ok:
  "\<forall>p \<in> set (clients st). conn_id (snd p) = fst p \<Longrightarrow>
   \<forall>p \<in> set (clients (broadcast ops ev d st)). conn_id (snd p) = fst p"
  by (auto simp: broadcast_def)

lemma registry_ok_init: "registry_ok server_init"
  by (simp add: registry_ok_def server_init_def)

lemma registry_ok_broadcast:
  assumes "registry_ok st"
  shows "registry_ok (broadcast ops ev d st)"
proof -
  have "distinct (map fst (clients (broadcast ops ev d st)))"
    using assms by (simp add: registry_ok_def)
  moreover have "\<forall>p \<in> set (clients (broadcast ops ev d st)). conn_id (snd p) = fst p"
    using assms broadcast_conn_ok unfolding registry_ok_def by blast
  ultimately show ?thesis
    unfolding registry_ok_def by blast
qed

lemma registry_ok_connect:
  assumes "registry_ok st"
  shows "registry_ok (sse_connect ops c h t s st)"
proof -
  have "distinct (map fst (clients (sse_connect ops c h t s st)))"
    using assms by (simp add: registry_ok_def sse_connect_clients distinct_update)
  moreover have "\<forall>p \<in> set (clients (sse_connect ops c h t s st)). conn_id (snd p) = fst p"
    unfolding sse_connect_clients
    using assms unfolding registry_ok_def by (intro update_conn_ids) simp_all
  ultimately show ?thesis
    unfolding registry_ok_def by blast
qed

lemma registry_ok_close:
  assumes "registry_ok st"
  shows "registry_ok (sse_close c st)"
proof -
  have "distinct (map fst (clients (sse_close c st)))"
    using assms by (simp add: registry_ok_def sse_close_def distinct_delete)
  moreover have "\<forall>p \<in> set (clients (sse_close c st)). conn_id (snd p) = fst p"
    using assms delete_conn_ids [of "clients st" c] by (simp add: registry_ok_def sse_close_def)
  ultimately show ?thesis
    unfolding registry_ok_def by blast
qed

lemma filter_distinct_fst:
  "distinct (map fst ps) \<Longrightarrow> length (filter (\<lambda>p. fst p = c) ps) \<le> 1"
proof (induction ps)
  case Nil
  then show ?case by simp
next
  case (Cons p ps)
  show ?case
  proof (cases "fst p = c")
    case True
    then have "c \<notin> fst ` set ps" using Cons.prems by auto
    then have "filter (\<lambda>p. fst p = c) ps = []"
      by (auto simp: filter_empty_conv)
    then show ?thesis using True by simp
  next
    case False
    then show ?thesis using Cons by simp
  qed
qed

lemma sorted_wrt_short: "length xs \<le> 1 \<Longrightarrow> sorted_wrt P xs"
  by (cases xs) auto

lemma wire_ok_append:
  assumes ok: "wire_ok st"
    and w: "wire st' = wire st @ new"
    and s: "globalEventSeq st' = globalEventSeq st + 1"
    and d: "distinct (map fst new)"
    and i: "\<forall>p \<in> set new. frame_id (snd p) = globalEventSeq st"
  shows "wire_ok st'"
proof -
  have below: "\<forall>i \<in> set (wire_ids st). i < globalEventSeq st"
    and srt: "sorted (wire_ids st)"
    and per: "\<And>c. sorted_wrt (<) (seen_by c st)"
    using ok by (auto simp: wire_ok_def)
  have ids: "wire_ids st' = wire_ids st @ map (\<lambda>p. frame_id (snd p)) new"
    by (simp add: wire_ids_def w)
  have new_ids: "\<forall>j \<in> set (map (\<lambda>p. frame_id (snd p)) new). j = globalEventSeq st"
    using i by auto
  have 1: "\<forall>i \<in> set (wire_ids st'). i < globalEventSeq st'"
    using below new_ids by (auto simp: ids s)
  have "sorted (map (\<lambda>p. frame_id (snd p)) new)"
    using new_ids by (induction new) auto
  then have 2: "sorted (wire_ids st')"
    using srt below new_ids by (auto simp: ids sorted_append less_imp_le)
  have 3: "sorted_wrt (<) (seen_by c st')" for c
  proof -
    have eq: "seen_by c st' = seen_by c st @ map (\<lambda>p. frame_id (snd p)) (filter (\<lambda>p. fst p = c) new)"
      by (simp add: seen_by_def w)
    have "length (map (\<lambda>p. frame_id (snd p)) (filter (\<lambda>p. fst p = c) new)) \<le> 1"
      using filter_distinct_fst [OF d, of c] by simp
    then have a: "sorted_wrt (<) (map (\<lambda>p. frame_id (snd p)) (filter (\<lambda>p. fst p = c) new))"
      by (rule sorted_wrt_short)
    have b: "\<forall>x \<in> set (seen_by c st). x < globalEventSeq st"
      using below by (auto simp: seen_by_def wire_ids_def)
    have c: "\<forall>y \<in> set (map (\<lambda>p. frame_id (snd p)) (filter (\<lambda>p. fst p = c) new)). y = globalEventSeq st"
      using i by auto
    show ?thesis
      unfolding eq sorted_wrt_append using per [of c] a b c by auto
  qed
  show ?thesis
    unfolding wire_ok_def using 1 2 3 by blast
qed

lemma wire_ok_init: "wire_ok server_init"
  by (simp add: wire_ok_def server_init_def wire_ids_def seen_by_def)

lemma wire_ok_broadcast:
  assumes "registry_ok st" and "wire_ok st"
  shows "wire_ok (broadcast ops ev d st)"
proof (rule wire_ok_append [OF assms(2) broadcast_wire])
  show "globalEventSeq (broadcast ops ev d st) = globalEventSeq st + 1"
    by simp
  have "map fst (map (\<lambda>c. (conn_id c, \<lparr>frame_id = globalEventSeq st, frame_event = ev, frame_data = d\<rparr>))
                     (map snd (clients st))) = map fst (clients st)"
    using assms(1) by (simp add: registry_ok_def)
  with assms(1) show "distinct (map fst (map (\<lambda>c. (conn_id c, \<lparr>frame_id = globalEventSeq st, frame_event = ev, frame_data = d\<rparr>))
                     (map snd (clients st))))"
    by (simp only: registry_ok_def)
  show "\<forall>p\<in>set (map (\<lambda>c. (conn_id c, \<lparr>frame_id = globalEventSeq st, frame_event = ev, frame_data = d\<rparr>))
                     (map snd (clients st))). frame_id (snd p) = globalEventSeq st"
    by auto
qed

lemma wire_ok_connect:
  assumes "wire_ok st"
  shows "wire_ok (sse_connect ops c h t s st)"
  by (rule wire_ok_append [OF assms sse_connect_wire]) simp_all

lemma wire_ok_close: "wire_ok st \<Longrightarrow> wire_ok (sse_close c st)"
  by (simp add: wire_ok_def sse_close_def wire_ids_def seen_by_def)

lemma command_loop_ok:
  "registry_ok st \<Longrightarrow> wire_ok st \<Longrightarrow>
   registry_ok (snd (command_loop ops clock i rs acc st)) \<and> wire_ok (snd (command_loop ops clock i rs acc st))"
proof (induction rs arbitrary: i acc st)
  case Nil
  then show ?case by simp
next
  case (Cons r rs)
  show ?case
  proof (cases "handleRpc_server ops (clock i) r")
    case (Inl e)
    then show ?thesis using Cons.prems by simp
  next
    case (Inr resp)
    have "registry_ok (broadcast ops ''rpc'' (Rpc resp) st)"
      and "wire_ok (broadcast ops ''rpc'' (Rpc resp) st)"
      using Cons.prems by (simp_all add: registry_ok_broadcast wire_ok_broadcast)
    from Cons.IH [OF this, of "Suc i" "acc @ [resp]"] Inr show ?thesis
      by simp
  qed
qed

lemma post_command_snd:
  "snd (post_command ops clock body st) =
     snd (command_loop ops clock 0 (case body of JArr xs \<Rightarrow> xs | _ \<Rightarrow> [body]) [] st)"
  by (simp add: post_command_def Let_def split: prod.splits sum.splits)

lemma step_ok:
  assumes "registry_ok st" and "wire_ok st"
  shows "registry_ok (server_step ops st ev) \<and> wire_ok (server_step ops st ev)"
proof (cases ev)
  case (SseConnect c h t s)
  then show ?thesis using assms by (simp add: registry_ok_connect wire_ok_connect)
next
  case (SseClose c)
  then show ?thesis using assms by (simp add: registry_ok_close wire_ok_close)
next
  case (Command clock body)
  then show ?thesis using assms command_loop_ok by (simp add: post_command_snd)
next
  case (Timer ts)
  then show ?thesis using assms by (simp add: registry_ok_broadcast wire_ok_broadcast)
qed

lemma foldl_ok:
  "registry_ok st \<Longrightarrow> wire_ok st \<Longrightarrow>
   registry_ok (foldl (server_step ops) st evs) \<and> wire_ok (foldl (server_step ops) st evs)"
proof (induction evs arbitrary: st)
  case Nil
  then show ?case by simp
next
  case (Cons ev evs)
  then show ?case using step_ok [of st ops ev] by simp
qed

lemma server_run_ok: "registry_ok (server_run ops evs) \<and> wire_ok (server_run ops evs)"
  unfolding server_run_def by (rule foldl_ok [OF registry_ok_init wire_ok_init])

lemma broadcast_wire_frames:
  "wire (broadcast ops ev d st) = wire st @ frames_to st (globalEventSeq st) ev d"
  by (simp add: broadcast_def frames_to_def case_prod_beta)

lemma frames_to_broadcast [simp]:
  "frames_to (broadcast ops ev d st) s ev' d' = frames_to st s ev' d'"
  by (simp add: broadcast_def frames_to_def case_prod_beta comp_def)

lemma strict_remdups_adj: "sorted (xs :: nat list) \<Longrightarrow> sorted_wrt (<) (remdups_adj xs)"
  by (induction xs rule: remdups_adj.induct) (auto simp: less_le)

text \<open>
  Claim C4. One call of \<^verbatim>\<open>broadcast\<close> raises \<^verbatim>\<open>globalEventSeq\<close> by exactly one,
  however many connections are registered, none included; every frame it writes
  carries the value the counter had before, so all recipients of one broadcast see
  the same id. The welcome event of an accepted connection takes one value of the
  counter as well. In every run of the server, each id on the wire is below the
  counter (the next event gets a fresh one), the ids on the wire never go down,
  they increase strictly once the repeats for the recipients of one broadcast are
  dropped, and the ids written to any one connection increase strictly.
\<close>

theorem broadcast_sequence_strictly_increasing:
  "globalEventSeq (broadcast ops ev d st) = globalEventSeq st + 1 \<and>
   wire (broadcast ops ev d st) = wire st @ frames_to st (globalEventSeq st) ev d \<and>
   length (frames_to st (globalEventSeq st) ev d) = length (clients st) \<and>
   (\<forall>p \<in> set (frames_to st (globalEventSeq st) ev d). frame_id (snd p) = globalEventSeq st) \<and>
   (clients st = [] \<longrightarrow> wire (broadcast ops ev d st) = wire st) \<and>
   globalEventSeq (sse_connect ops c h t s st) = globalEventSeq st + 1 \<and>
   wire (sse_connect ops c h t s st) =
     wire st @ [(c, \<lparr>frame_id = globalEventSeq st, frame_event = ''welcome'',
                      frame_data = Welcome c s\<rparr>)] \<and>
   (\<forall>i \<in> set (wire_ids (server_run ops evs)). i < globalEventSeq (server_run ops evs)) \<and>
   sorted (wire_ids (server_run ops evs)) \<and>
   sorted_wrt (<) (remdups_adj (wire_ids (server_run ops evs))) \<and>
   (\<forall>k. sorted_wrt (<) (seen_by k (server_run ops evs)))"
proof -
  have ok: "wire_ok (server_run ops evs)"
    using server_run_ok by blast
  have 1: "\<forall>p \<in> set (frames_to st (globalEventSeq st) ev d). frame_id (snd p) = globalEventSeq st"
    by (auto simp: frames_to_def)
  have 2: "clients st = [] \<longrightarrow> wire (broadcast ops ev d st) = wire st"
    by (simp add: broadcast_def)
  have 3: "length (frames_to st (globalEventSeq st) ev d) = length (clients st)"
    by (simp add: frames_to_def)
  have 4: "\<forall>i \<in> set (wire_ids (server_run ops evs)). i < globalEventSeq (server_run ops evs)"
    and 5: "sorted (wire_ids (server_run ops evs))"
    and 6: "\<forall>k. sorted_wrt (<) (seen_by k (server_run ops evs))"
    using ok unfolding wire_ok_def by blast+
  have 7: "sorted_wrt (<) (remdups_adj (wire_ids (server_run ops evs)))"
    using 5 by (rule strict_remdups_adj)
  show ?thesis
    using 1 2 3 4 5 6 7 broadcast_wire_frames [of ops ev d st] sse_connect_wire [of ops c h t s st]
    by (simp only: broadcast_seq sse_connect_seq) blast
qed

lemmas run_defs = server_run_def server_init_def sse_connect_def sse_close_def broadcast_def
  post_command_def new_conn_def header_number_def wire_ids_def seen_by_def Let_def

theorem broadcast_sequence_strictly_increasing_witness:
  "wire_ids (server_run sample_ops
     [SseConnect ''c1'' (Some ''7'') (Some 100) ''t0'', Timer (Some 110),
      SseConnect ''c2'' None (Some 120) ''t1'', Timer (Some 130), SseClose ''c1'',
      Timer (Some 140)]) = [1, 2, 3, 4, 4, 5] \<and>
   seen_by ''c1'' (server_run sample_ops
     [SseConnect ''c1'' (Some ''7'') (Some 100) ''t0'', Timer (Some 110),
      SseConnect ''c2'' None (Some 120) ''t1'', Timer (Some 130), SseClose ''c1'',
      Timer (Some 140)]) = [1, 2, 4] \<and>
   globalEventSeq (server_run sample_ops
     [SseConnect ''c1'' (Some ''7'') (Some 100) ''t0'', Timer (Some 110),
      SseConnect ''c2'' None (Some 120) ''t1'', Timer (Some 130), SseClose ''c1'',
      Timer (Some 140)]) = 6"
  using broadcast_sequence_strictly_increasing
    [of sample_ops "''tick''" "Tick (Some 110)" server_init "''c1''" "Some ''7''" "Some 100" "''t0''"
        "[SseConnect ''c1'' (Some ''7'') (Some 100) ''t0'', Timer (Some 110),
      SseConnect ''c2'' None (Some 120) ''t1'', Timer (Some 130), SseClose ''c1'',
      Timer (Some 140)]"]
  by (simp add: run_defs sample_ops_def)

lemma sse_connect_header: "sse_connect ops c h t s st = sse_connect ops c None t s st"
  by (simp add: sse_connect_def Let_def map_entry_update new_conn_def)

lemma server_step_without_header: "server_step ops st (without_header ev) = server_step ops st ev"
  by (cases ev) (simp_all add: sse_connect_header [symmetric])

lemma foldl_without_header:
  "foldl (server_step ops) st (map without_header evs) = foldl (server_step ops) st evs"
  by (induction evs arbitrary: st) (simp_all add: server_step_without_header)

text \<open>
  Claim C9. The value of the \<^verbatim>\<open>Last-Event-ID\<close> header is put into the
  \<^verbatim>\<open>lastEventId\<close> field of the connection object when that is made, and
  nothing ever reads it: the state the accept handler leaves behind is the same
  for every header value (the welcome event overwrites the field), and two runs
  that differ in header values only end in the same state, with the same frames
  written to the same connections.
\<close>

theorem last_event_id_header_never_observed:
  assumes "map without_header evs = map without_header evs'"
  shows "lastEventId (new_conn ops c (Some h) t) = (if h \<noteq> [] then nparse ops h else nof_int ops 0) \<and>
         lastEventId (new_conn ops c None t) = nof_int ops 0 \<and>
         sse_connect ops c header t s st = sse_connect ops c header' t s st \<and>
         server_run ops evs = server_run ops evs' \<and>
         wire (server_run ops evs) = wire (server_run ops evs')"
proof -
  have "server_run ops evs = foldl (server_step ops) server_init (map without_header evs)"
    by (simp add: server_run_def foldl_without_header)
  also have "\<dots> = foldl (server_step ops) server_init (map without_header evs')"
    by (simp only: assms)
  also have "\<dots> = server_run ops evs'"
    by (simp add: server_run_def foldl_without_header)
  finally have run: "server_run ops evs = server_run ops evs'" .
  have "sse_connect ops c header t s st = sse_connect ops c header' t s st"
    using sse_connect_header [of ops c header t s st] sse_connect_header [of ops c header' t s st]
    by simp
  then show ?thesis
    using run by (simp add: new_conn_def header_number_def)
qed

theorem last_event_id_header_never_observed_witness:
  "wire (server_run sample_ops
     [SseConnect ''c1'' (Some ''7'') (Some 100) ''t0'', Timer (Some 110)]) =
   wire (server_run sample_ops
     [SseConnect ''c1'' None (Some 100) ''t0'', Timer (Some 110)]) \<and>
   lastEventId (new_conn sample_ops ''c1'' (Some ''7'') (Some 100)) = Some 7"
  using last_event_id_header_never_observed
    [of "[SseConnect ''c1'' (Some ''7'') (Some 100) ''t0'', Timer (Some 110)]"
        "[SseConnect ''c1'' None (Some 100) ''t0'', Timer (Some 110)]"
        sample_ops "''c1''" "''7''" "Some 100"]
  by (simp add: sample_ops_def parse_int_def is_digit_def)

lemma upt_shift: "[0..<Suc n] = 0 # map Suc [0..<n]"
  by (simp add: upt_conv_Cons map_Suc_upt del: upt_Suc)

lemma command_loop_batch:
  "list_all (\<lambda>r. r \<noteq> JNull \<and> r \<noteq> JUndefined) rs \<Longrightarrow>
   \<exists>resps. fst (command_loop ops clock i rs acc st) = Inr (acc @ resps) \<and>
           length resps = length rs \<and>
           (\<forall>j<length rs. handleRpc_server ops (clock (i + j)) (rs ! j) = Inr (resps ! j)) \<and>
           wire (snd (command_loop ops clock i rs acc st)) =
             wire st @ concat (map (\<lambda>j. frames_to st (globalEventSeq st + j) ''rpc'' (Rpc (resps ! j)))
                                   [0..<length rs]) \<and>
           globalEventSeq (snd (command_loop ops clock i rs acc st)) = globalEventSeq st + length rs"
proof (induction rs arbitrary: i acc st)
  case Nil
  then show ?case by simp
next
  case (Cons r rs)
  from Cons.prems have r: "r \<noteq> JNull" "r \<noteq> JUndefined"
    and rs: "list_all (\<lambda>r. r \<noteq> JNull \<and> r \<noteq> JUndefined) rs"
    by simp_all
  obtain resp where resp: "handleRpc_server ops (clock i) r = Inr resp"
    using handleRpc_server_returns [OF r] by blast
  let ?st1 = "broadcast ops ''rpc'' (Rpc resp) st"
  obtain resps where
    1: "fst (command_loop ops clock (Suc i) rs (acc @ [resp]) ?st1) = Inr ((acc @ [resp]) @ resps)"
    and 2: "length resps = length rs"
    and 3: "\<forall>j<length rs. handleRpc_server ops (clock (Suc i + j)) (rs ! j) = Inr (resps ! j)"
    and 4: "wire (snd (command_loop ops clock (Suc i) rs (acc @ [resp]) ?st1)) =
             wire ?st1 @ concat (map (\<lambda>j. frames_to ?st1 (globalEventSeq ?st1 + j) ''rpc'' (Rpc (resps ! j)))
                                   [0..<length rs])"
    and 5: "globalEventSeq (snd (command_loop ops clock (Suc i) rs (acc @ [resp]) ?st1)) =
             globalEventSeq ?st1 + length rs"
    using Cons.IH [OF rs, of "Suc i" "acc @ [resp]" ?st1] by blast
  have a: "fst (command_loop ops clock i (r # rs) acc st) = Inr (acc @ (resp # resps))"
    using resp 1 by simp
  have b: "length (resp # resps) = length (r # rs)"
    using 2 by simp
  have c: "\<forall>j<length (r # rs). handleRpc_server ops (clock (i + j)) ((r # rs) ! j) = Inr ((resp # resps) ! j)"
  proof (intro allI impI)
    fix j assume "j < length (r # rs)"
    then show "handleRpc_server ops (clock (i + j)) ((r # rs) ! j) = Inr ((resp # resps) ! j)"
      using resp 3 by (cases j) simp_all
  qed
  have d: "wire (snd (command_loop ops clock i (r # rs) acc st)) =
             wire st @ concat (map (\<lambda>j. frames_to st (globalEventSeq st + j) ''rpc'' (Rpc ((resp # resps) ! j)))
                                   [0..<length (r # rs)])"
    using resp 4 by (simp add: broadcast_wire_frames upt_shift comp_def del: upt_Suc)
  have e: "globalEventSeq (snd (command_loop ops clock i (r # rs) acc st)) = globalEventSeq st + length (r # rs)"
    using resp 5 by simp
  show ?case
    using a b c d e by blast
qed

lemma post_command_batch:
  assumes "list_all (\<lambda>r. r \<noteq> JNull \<and> r \<noteq> JUndefined) rs"
  shows "\<exists>resps. fst (post_command ops clock (JArr rs) st) = Some (Batch resps) \<and>
           length resps = length rs \<and>
           (\<forall>j<length rs. handleRpc_server ops (clock j) (rs ! j) = Inr (resps ! j)) \<and>
           wire (snd (post_command ops clock (JArr rs) st)) =
             wire st @ concat (map (\<lambda>j. frames_to st (globalEventSeq st + j) ''rpc'' (Rpc (resps ! j)))
                                   [0..<length rs]) \<and>
           globalEventSeq (snd (post_command ops clock (JArr rs) st)) = globalEventSeq st + length rs"
proof -
  obtain resps where
    1: "fst (command_loop ops clock 0 rs [] st) = Inr ([] @ resps)"
    and 2: "length resps = length rs"
    and 3: "\<forall>j<length rs. handleRpc_server ops (clock (0 + j)) (rs ! j) = Inr (resps ! j)"
    and 4: "wire (snd (command_loop ops clock 0 rs [] st)) =
             wire st @ concat (map (\<lambda>j. frames_to st (globalEventSeq st + j) ''rpc'' (Rpc (resps ! j)))
                                   [0..<length rs])"
    and 5: "globalEventSeq (snd (command_loop ops clock 0 rs [] st)) = globalEventSeq st + length rs"
    using command_loop_batch [OF assms, of ops clock 0 "[]" st] by blast
  have "fst (post_command ops clock (JArr rs) st) = Some (Batch resps)"
    using 1 by (cases "command_loop ops clock 0 rs [] st") (simp add: post_command_def)
  moreover have "snd (post_command ops clock (JArr rs) st) = snd (command_loop ops clock 0 rs [] st)"
    by (simp add: post_command_snd)
  ultimately show ?thesis
    using 2 3 4 5 by auto
qed

lemma post_command_single:
  assumes "body \<noteq> JNull" and "body \<noteq> JUndefined" and "\<not> isArray body"
  shows "\<exists>resp. handleRpc_server ops (clock 0) body = Inr resp \<and>
           post_command ops clock body st = (Some (Single resp), broadcast ops ''rpc'' (Rpc resp) st)"
proof -
  obtain resp where resp: "handleRpc_server ops (clock 0) body = Inr resp"
    using handleRpc_server_returns [OF assms(1,2)] by blast
  have "(case body of JArr xs \<Rightarrow> xs | _ \<Rightarrow> [body]) = [body]"
    using assms(3) by (cases body) simp_all
  then have "post_command ops clock body st = (Some (Single resp), broadcast ops ''rpc'' (Rpc resp) st)"
    using resp assms(3) by (simp add: post_command_def)
  then show ?thesis using resp by blast
qed

text \<open>
  The command handler on requests. A POST to \<^verbatim>\<open>/mcp/command\<close> whose body is
  an array of K values other than \<^verbatim>\<open>null\<close> is answered with an array of K
  responses, the response at position \<open>j\<close> being that of \<^verbatim>\<open>handleRpc\<close> for
  the entry at position \<open>j\<close>, dispatched at the time the entries before it are
  done with: the response at position \<open>j\<close> is broadcast under the sequence id
  \<open>j\<close> above the one the handler started with, so entry by entry in the order of
  the array. A body that is a single request is answered with the single response.
\<close>

theorem post_command_replies_in_order:
  "(list_all (\<lambda>r. r \<noteq> JNull \<and> r \<noteq> JUndefined) rs \<longrightarrow>
      (\<exists>resps. fst (post_command ops clock (JArr rs) st) = Some (Batch resps) \<and>
           length resps = length rs \<and>
           (\<forall>j<length rs. handleRpc_server ops (clock j) (rs ! j) = Inr (resps ! j)) \<and>
           wire (snd (post_command ops clock (JArr rs) st)) =
             wire st @ concat (map (\<lambda>j. frames_to st (globalEventSeq st + j) ''rpc'' (Rpc (resps ! j)))
                                   [0..<length rs]) \<and>
           globalEventSeq (snd (post_command ops clock (JArr rs) st)) = globalEventSeq st + length rs)) \<and>
   (body \<noteq> JNull \<and> body \<noteq> JUndefined \<and> \<not> isArray body \<longrightarrow>
      (\<exists>resp. handleRpc_server ops (clock 0) body = Inr resp \<and>
           post_command ops clock body st = (Some (Single resp), broadcast ops ''rpc'' (Rpc resp) st)))"
  using post_command_batch [of rs ops clock st] post_command_single [of body ops clock st]
  by blast

theorem post_command_replies_in_order_witness:
  "fst (post_command sample_ops (\<lambda>i. ''2026-01-01T00:00:00.000Z'')
     (JArr [JObj [(''jsonrpc'', JStr ''2.0''), (''id'', JStr ''a''), (''method'', JStr ''ping'')],
            JObj [(''jsonrpc'', JStr ''2.0''), (''id'', JStr ''b''), (''method'', JStr ''unknown'')]])
     server_init) =
   Some (Batch [Success (JStr ''a'') (JObj [(''pong'', JBool True)]),
                Failure (JStr ''b'') (- 32601) ''Method not found: unknown'' None]) \<and>
   fst (post_command sample_ops (\<lambda>i. ''2026-01-01T00:00:00.000Z'')
     (JObj [(''jsonrpc'', JStr ''2.0''), (''id'', JStr ''a''), (''method'', JStr ''ping'')])
     server_init) =
   Some (Single (Success (JStr ''a'') (JObj [(''pong'', JBool True)])))"
  using post_command_replies_in_order
    [of "[JObj [(''jsonrpc'', JStr ''2.0''), (''id'', JStr ''a''), (''method'', JStr ''ping'')],
          JObj [(''jsonrpc'', JStr ''2.0''), (''id'', JStr ''b''), (''method'', JStr ''unknown'')]]"
        sample_ops "\<lambda>i. ''2026-01-01T00:00:00.000Z''" server_init
        "JObj [(''jsonrpc'', JStr ''2.0''), (''id'', JStr ''a''), (''method'', JStr ''ping'')]"]
  by (simp add: eval_defs run_defs)

text \<open>
  Claim C5: a body that is an array of K entries is answered with an array of K
  responses in the order of the entries, a single body with the single response.
  The handler does this for every batch but one with an entry \<^verbatim>\<open>null\<close>, on
  which \<^verbatim>\<open>await handleRpc(r)\<close> rejects (the case \<^verbatim>\<open>handleRpc\<close> misses):
  for \<^verbatim>\<open>[ping, null, ping]\<close> the first response is broadcast, the third entry
  is never dispatched, and no reply is sent; for \<^verbatim>\<open>[null]\<close> nothing happens
  at all.
\<close>

theorem post_command_null_entry_no_reply:
  "post_command ops clock
     (JArr [JObj [(''jsonrpc'', JStr ''2.0''), (''id'', JStr ''a''), (''method'', JStr ''ping'')],
            JNull,
            JObj [(''jsonrpc'', JStr ''2.0''), (''id'', JStr ''b''), (''method'', JStr ''ping'')]])
     st =
   (None, broadcast ops ''rpc'' (Rpc (Success (JStr ''a'') (JObj [(''pong'', JBool True)]))) st) \<and>
   post_command ops clock (JArr [JNull]) st = (None, st)"
  by (simp add: post_command_def handleRpc_server_def dispatch_server_def Let_def)

section \<open>Properties of the stdio transport\<close>

declare drain.simps [simp del]

lemma drain_done: "newline \<notin> set (buffer st) \<Longrightarrow> drain eng st = st"
  by (simp add: drain.simps)

lemma takeWhile_line: "newline \<notin> set l \<Longrightarrow> takeWhile (\<lambda>c. c \<noteq> newline) (l @ newline # rest) = l"
  by (induction l) auto

lemma dropWhile_line:
  "newline \<notin> set l \<Longrightarrow> dropWhile (\<lambda>c. c \<noteq> newline) (l @ newline # rest) = newline # rest"
  by (induction l) auto

lemma drain_line:
  assumes "newline \<notin> set l" and "buffer st = l @ newline # rest"
  shows "drain eng st = drain eng (on_line eng (String_trim eng l) (st\<lparr>buffer := rest\<rparr>))"
proof -
  have "newline \<in> set (buffer st)"
    using assms(2) by simp
  then show ?thesis
    by (subst drain.simps) (simp add: assms(2) takeWhile_line [OF assms(1)] dropWhile_line [OF assms(1)])
qed

lemma on_line_stdout:
  "\<exists>ys. stdout (on_line eng l st) = stdout st @ ys \<and> (\<forall>r \<in> set ys. \<exists>msg. r = parse_error msg)"
  by (auto simp: on_line_def split: sum.splits)

lemma on_line_buffer [simp]: "buffer (on_line eng l st) = buffer st"
  by (simp add: on_line_def split: sum.splits)

lemma drain_stdout:
  "\<exists>ys. stdout (drain eng st) = stdout st @ ys \<and> (\<forall>r \<in> set ys. \<exists>msg. r = parse_error msg)"
proof (induction eng st rule: drain.induct)
  case (1 eng st)
  show ?case
  proof (cases "newline \<in> set (buffer st)")
    case False
    then show ?thesis by (simp add: drain_done)
  next
    case True
    let ?st1 = "st\<lparr>buffer := tl (dropWhile (\<lambda>c. c \<noteq> newline) (buffer st))\<rparr>"
    let ?st2 = "on_line eng (String_trim eng (takeWhile (\<lambda>c. c \<noteq> newline) (buffer st))) ?st1"
    have eq: "drain eng st = drain eng ?st2"
      using True by (subst drain.simps) simp
    obtain ys where ys: "stdout ?st2 = stdout ?st1 @ ys" "\<forall>r \<in> set ys. \<exists>msg. r = parse_error msg"
      using on_line_stdout by blast
    obtain zs where zs: "stdout (drain eng ?st2) = stdout ?st2 @ zs" "\<forall>r \<in> set zs. \<exists>msg. r = parse_error msg"
      using "1.IH" [OF True] by blast
    have "stdout (drain eng st) = stdout st @ (ys @ zs)"
      using eq ys(1) zs(1) by simp
    moreover have "\<forall>r \<in> set (ys @ zs). \<exists>msg. r = parse_error msg"
      using ys(2) zs(2) by auto
    ultimately show ?thesis by blast
  qed
qed

text \<open>
  Claim C6. When the buffer and the chunk that arrives start with a line that is
  not empty once trimmed and that \<^verbatim>\<open>JSON.parse\<close> rejects, the listener
  writes exactly one line for it, right after what was written before: the Failure
  with code -32700, message \<^verbatim>\<open>Parse error\<close>, id \<^verbatim>\<open>null\<close> and the message
  of the parser as data. Nothing is dispatched for the line, and the listener goes
  on with the rest of the buffer as it would have without that line.
\<close>

theorem parse_failure_emits_one_line:
  assumes "newline \<notin> set l" and "String_trim eng l \<noteq> []" and "JSON_parse eng (String_trim eng l) = Inl msg"
    and "buffer st @ chunk = l @ newline # rest"
  shows "on_data eng chunk st =
           drain eng (st\<lparr>buffer := rest,
                           stdout := stdout st @
                             [Failure JNull (- 32700) ''Parse error'' (Some (Diagnostic msg))]\<rparr>) \<and>
         (\<exists>ys. stdout (on_data eng chunk st) =
                  stdout st @ Failure JNull (- 32700) ''Parse error'' (Some (Diagnostic msg)) # ys) \<and>
         (newline \<notin> set rest \<longrightarrow>
            on_data eng chunk st =
              st\<lparr>buffer := rest,
                 stdout := stdout st @
                   [Failure JNull (- 32700) ''Parse error'' (Some (Diagnostic msg))]\<rparr>)"
proof -
  let ?f = "Failure JNull (- 32700) ''Parse error'' (Some (Diagnostic msg)) :: 'a response"
  let ?st' = "st\<lparr>buffer := rest, stdout := stdout st @ [?f]\<rparr>"
  have "on_data eng chunk st = drain eng (on_line eng (String_trim eng l) (st\<lparr>buffer := buffer st @ chunk\<rparr>\<lparr>buffer := rest\<rparr>))"
    unfolding on_data_def by (rule drain_line [OF assms(1)]) (simp add: assms(4))
  also have "on_line eng (String_trim eng l) (st\<lparr>buffer := buffer st @ chunk\<rparr>\<lparr>buffer := rest\<rparr>) = ?st'"
    using assms(2,3) by (simp add: on_line_def parse_error_def)
  finally have 1: "on_data eng chunk st = drain eng ?st'" .
  obtain ys where "stdout (drain eng ?st') = stdout ?st' @ ys"
    using drain_stdout by blast
  then have 2: "\<exists>ys. stdout (on_data eng chunk st) = stdout st @ ?f # ys"
    using 1 by simp
  have 3: "newline \<notin> set rest \<longrightarrow> on_data eng chunk st = ?st'"
    using 1 by (simp add: drain_done)
  show ?thesis
    using 1 2 3 by blast
qed

theorem parse_failure_emits_one_line_witness:
  "on_data sample_engine (''not-json'' @ [newline] @ ''nu'') (stdio_init sample_ops sample_env) =
     \<lparr>buffer = ''nu'', inflight = [],
      stdout = [ready_line sample_ops sample_env,
                Failure JNull (- 32700) ''Parse error'' (Some (Diagnostic ''Unexpected token''))]\<rparr>"
  using parse_failure_emits_one_line
    [of "''not-json''" sample_engine "''Unexpected token''" "stdio_init sample_ops sample_env"
        "''not-json'' @ [newline] @ ''nu''" "''nu''"]
  by (simp add: newline_def ascii_trim_def whitespace_def sample_engine_def stdio_init_def drain_done)

lemma on_data_stdout:
  "\<exists>ys. stdout (on_data eng chunk st) = stdout st @ ys \<and> (\<forall>r \<in> set ys. \<exists>msg. r = parse_error msg)"
  using drain_stdout [of eng "st\<lparr>buffer := buffer st @ chunk\<rparr>"] by (simp add: on_data_def)

lemma settle_stdout:
  "\<exists>ys. stdout (settle ops env i st) = stdout st @ ys \<and>
        (\<forall>r \<in> set ys. \<exists>req. handleRpc_stdio ops env req = Inr r)"
proof (cases "i < length (inflight st)")
  case False
  then show ?thesis by (simp add: settle_def)
next
  case True
  show ?thesis
  proof (cases "handleRpc_stdio ops env (inflight st ! i)")
    case (Inl e)
    then show ?thesis using True by (simp add: settle_def)
  next
    case (Inr resp)
    then have "stdout (settle ops env i st) = stdout st @ [resp]"
      using True by (simp add: settle_def)
    then show ?thesis using Inr by auto
  qed
qed

lemma stdio_step_stdout:
  "\<exists>ys. stdout (stdio_step eng ops env st ev) = stdout st @ ys \<and>
        (\<forall>r \<in> set ys. (\<exists>msg. r = parse_error msg) \<or> (\<exists>req. handleRpc_stdio ops env req = Inr r))"
proof (cases ev)
  case (Data chunk)
  then show ?thesis using on_data_stdout [of eng chunk st] by auto
next
  case (Settled i)
  then show ?thesis using settle_stdout [of ops env i st] by auto
qed

lemma stdio_foldl_stdout:
  "\<exists>ys. stdout (foldl (stdio_step eng ops env) st evs) = stdout st @ ys \<and>
        (\<forall>r \<in> set ys. (\<exists>msg. r = parse_error msg) \<or> (\<exists>req. handleRpc_stdio ops env req = Inr r))"
proof (induction evs arbitrary: st)
  case Nil
  then show ?case by simp
next
  case (Cons ev evs)
  obtain ys where ys: "stdout (stdio_step eng ops env st ev) = stdout st @ ys"
    "\<forall>r \<in> set ys. (\<exists>msg. r = parse_error msg) \<or> (\<exists>req. handleRpc_stdio ops env req = Inr r)"
    using stdio_step_stdout by blast
  obtain zs where zs:
    "stdout (foldl (stdio_step eng ops env) (stdio_step eng ops env st ev) evs) =
       stdout (stdio_step eng ops env st ev) @ zs"
    "\<forall>r \<in> set zs. (\<exists>msg. r = parse_error msg) \<or> (\<exists>req. handleRpc_stdio ops env req = Inr r)"
    using Cons.IH by blast
  have "stdout (foldl (stdio_step eng ops env) st (ev # evs)) = stdout st @ (ys @ zs)"
    using ys(1) zs(1) by simp
  moreover have "\<forall>r \<in> set (ys @ zs). (\<exists>msg. r = parse_error msg) \<or> (\<exists>req. handleRpc_stdio ops env req = Inr r)"
    using ys(2) zs(2) by auto
  ultimately show ?case by blast
qed

text \<open>
  Claim C7. When the module has been loaded and no input has been looked at yet
  (the buffer is empty and nothing is in flight), exactly one line has been
  written: the envelope with id \<^verbatim>\<open>null\<close> and the result
  \<^verbatim>\<open>{ready: true, tools: [...]}\<close>, the tools being the names of the registered
  tools. Whatever input arrives and whichever dispatches settle afterwards, that
  line stays the first line of the output, and every line after it answers an
  input line: it is a parse failure or a response of \<^verbatim>\<open>handleRpc\<close>.
\<close>

theorem ready_line_is_first:
  "stdio_init ops env =
     \<lparr>buffer = [], inflight = [],
      stdout = [Success JNull (JObj [(''ready'', JBool True),
                                     (''tools'', JArr [JStr ''tavily_search''])])]\<rparr> \<and>
   map JStr (Object_keys (TOOLS ops env)) = map (\<lambda>t. JStr (name t)) (Object_values (TOOLS ops env)) \<and>
   (\<exists>rest. stdout (stdio_run eng ops env evs) =
              Success JNull (JObj [(''ready'', JBool True),
                                   (''tools'', JArr [JStr ''tavily_search''])]) # rest \<and>
            (\<forall>r \<in> set rest. (\<exists>msg. r = parse_error msg) \<or>
                              (\<exists>req. handleRpc_stdio ops env req = Inr r)))"
proof -
  have init: "stdio_init ops env =
     \<lparr>buffer = [], inflight = [],
      stdout = [Success JNull (JObj [(''ready'', JBool True),
                                     (''tools'', JArr [JStr ''tavily_search''])])]\<rparr>"
    by (simp add: stdio_init_def ready_line_def Object_keys_def TOOLS_def)
  have names: "map JStr (Object_keys (TOOLS ops env)) = map (\<lambda>t. JStr (name t)) (Object_values (TOOLS ops env))"
    by (simp add: Object_keys_def Object_values_def TOOLS_def)
  obtain ys where ys: "stdout (stdio_run eng ops env evs) = stdout (stdio_init ops env) @ ys"
    "\<forall>r \<in> set ys. (\<exists>msg. r = parse_error msg) \<or> (\<exists>req. handleRpc_stdio ops env req = Inr r)"
    unfolding stdio_run_def using stdio_foldl_stdout by blast
  have "stdout (stdio_run eng ops env evs) =
          Success JNull (JObj [(''ready'', JBool True), (''tools'', JArr [JStr ''tavily_search''])]) # ys"
    using ys(1) by (simp add: init)
  then show ?thesis
    using init names ys(2) by blast
qed

theorem ready_line_is_first_witness:
  "stdout (stdio_run sample_engine sample_ops sample_env
     [Data (''not-json'' @ [newline] @ ''nu''), Data (''ll'' @ [newline]), Settled 0]) =
   [Success JNull (JObj [(''ready'', JBool True), (''tools'', JArr [JStr ''tavily_search''])]),
    Failure JNull (- 32700) ''Parse error'' (Some (Diagnostic ''Unexpected token''))]"
  using ready_line_is_first
    [of sample_ops sample_env sample_engine
        "[Data (''not-json'' @ [newline] @ ''nu''), Data (''ll'' @ [newline]), Settled 0]"]
  by (simp add: stdio_run_def stdio_init_def ready_line_def Object_keys_def TOOLS_def on_data_def
        drain.simps on_line_def settle_def newline_def ascii_trim_def whitespace_def sample_engine_def
        handleRpc_stdio_def parse_error_def null_read_def)

end
